theory Spec2Isabelle
  imports Complex_Main "HOL-Library.Word" "HOL-Library.Monad_Syntax"
begin

section \<open>JavaScript values used by the course engine\<close>

text \<open>
  A JavaScript string is a sequence of 16-bit code units; \<open>length\<close>, indexing,
  \<open>===\<close> and \<open>charCodeAt\<close> all work on code units. \<open>js\<close> writes the string
  with a given ASCII text.
\<close>

type_synonym codeunit = "16 word"
type_synonym jsstring = "codeunit list"

definition js :: "string \<Rightarrow> jsstring" where
  "js s = map of_char s"

text \<open>
  \<open>Array.prototype.includes\<close> on an array of strings: a left-to-right scan with
  SameValueZero, which on strings is equality of the code-unit sequences.
\<close>

fun includes_js :: "'a list \<Rightarrow> 'a \<Rightarrow> bool" where
  "includes_js [] x = False"
| "includes_js (y # ys) x = (if y = x then True else includes_js ys x)"

section \<open>Progress calculator (csv.ts, src/unnamed/part_009)\<close>

text \<open>
  \<open>interface Task\<close>. Record fields share one name space in HOL, so each field
  carries the interface's name as a prefix: \<open>task_id\<close> is \<open>Task.id\<close>,
  \<open>task_xp\<close> is \<open>Task.xp\<close>, and so on. \<open>xp\<close> is a JavaScript number; the
  model keeps the integer it denotes, which a double holds exactly up to
  \<open>2^53\<close>.
\<close>

record Resources =
  pdfs :: "jsstring list"
  forms :: "jsstring list"
  answerKey :: jsstring

record Task =
  task_id :: jsstring
  task_title :: jsstring
  task_scenario :: jsstring
  task_lessonId :: jsstring
  task_chapterId :: jsstring
  task_courseId :: jsstring
  task_resources :: Resources
  task_xp :: int
  task_instructions :: "jsstring option"

text \<open>
  The object \<open>calculateProgress\<close> returns. The two percentages are quotients of
  JavaScript numbers; the model keeps the exact rational of which the double is
  the rounding.
\<close>

record ProgressStats =
  totalTasks :: nat
  completedTasks :: nat
  completionPercentage :: rat
  totalXP :: int
  earnedXP :: int
  xpPercentage :: rat

definition calculateProgress :: "Task list \<Rightarrow> jsstring list \<Rightarrow> ProgressStats" where
  "calculateProgress tasks completedTaskIds =
     (let totalTasks' = length tasks;
          totalXP' = foldl (\<lambda>sum task. sum + task_xp task) 0 tasks;
          completedTasksInThisSet =
            filter (\<lambda>task. includes_js completedTaskIds (task_id task)) tasks;
          completedTasks' = length completedTasksInThisSet;
          earnedXP' = foldl (\<lambda>sum task. sum + task_xp task) 0 completedTasksInThisSet
      in \<lparr> totalTasks = totalTasks',
           completedTasks = completedTasks',
           completionPercentage =
             (if totalTasks' > 0
              then (of_nat completedTasks' / of_nat totalTasks') * 100 else 0),
           totalXP = totalXP',
           earnedXP = earnedXP',
           xpPercentage =
             (if totalXP' > 0 then (of_int earnedXP' / of_int totalXP') * 100 else 0) \<rparr>)"

section \<open>String methods\<close>

text \<open>
  The white space of \<open>String.prototype.trim\<close> and of \<open>\s\<close> in a regular
  expression: the WhiteSpace and LineTerminator code units.
\<close>

definition isWhiteSpace :: "codeunit \<Rightarrow> bool" where
  "isWhiteSpace c \<longleftrightarrow>
     c = 0x9 \<or> c = 0xA \<or> c = 0xB \<or> c = 0xC \<or> c = 0xD \<or> c = 0x20 \<or> c = 0xA0
     \<or> c = 0x1680 \<or> (0x2000 \<le> c \<and> c \<le> 0x200A) \<or> c = 0x2028 \<or> c = 0x2029
     \<or> c = 0x202F \<or> c = 0x205F \<or> c = 0x3000 \<or> c = 0xFEFF"

definition trim :: "jsstring \<Rightarrow> jsstring" where
  "trim s = rev (dropWhile isWhiteSpace (rev (dropWhile isWhiteSpace s)))"

text \<open>
  \<open>toUpperCase\<close> on the ASCII letters. Code units outside ASCII are left as
  they are; their upper-case forms in JavaScript are never one of the single
  letters \<open>A\<close> to \<open>D\<close>, which is all that \<open>organizeQuiz\<close> compares the
  result with.
\<close>

definition toUpperCase :: "jsstring \<Rightarrow> jsstring" where
  "toUpperCase s = map (\<lambda>c. if 0x61 \<le> c \<and> c \<le> 0x7A then c - 0x20 else c) s"

text \<open>\<open>s.split(sep)\<close> for a separator of one code unit, and \<open>parts.join(sep)\<close>.\<close>

fun split :: "codeunit \<Rightarrow> jsstring \<Rightarrow> jsstring list" where
  "split sep [] = [[]]"
| "split sep (c # s) =
     (if c = sep then [] # split sep s
      else (case split sep s of
              [] \<Rightarrow> [[c]]
            | part # parts \<Rightarrow> (c # part) # parts))"

fun join :: "jsstring \<Rightarrow> jsstring list \<Rightarrow> jsstring" where
  "join sep [] = []"
| "join sep [part] = part"
| "join sep (part # parts) = part @ sep @ join sep parts"

text \<open>
  \<open>new Set(xs)\<close> read back in insertion order: each value once, at the place of
  its first occurrence.
\<close>

fun insertAll :: "'a list \<Rightarrow> 'a list \<Rightarrow> 'a list" where
  "insertAll seen [] = seen"
| "insertAll seen (x # xs) = insertAll (if includes_js seen x then seen else seen @ [x]) xs"

definition newSet :: "'a list \<Rightarrow> 'a list" where
  "newSet xs = insertAll [] xs"

text \<open>
  \<open>['A', 'B', 'C', 'D'].indexOf(x)\<close>: the position of the first element equal
  to \<open>x\<close>, or \<open>-1\<close>.
\<close>

fun indexOfFrom :: "int \<Rightarrow> 'a list \<Rightarrow> 'a \<Rightarrow> int" where
  "indexOfFrom i [] x = -1"
| "indexOfFrom i (y # ys) x = (if y = x then i else indexOfFrom (i + 1) ys x)"

definition indexOf :: "'a list \<Rightarrow> 'a \<Rightarrow> int" where
  "indexOf xs x = indexOfFrom 0 xs x"

section \<open>Quiz organiser (src/src/lib/learning.ts)\<close>

text \<open>
  \<open>interface QuizRow\<close> (fields prefixed \<open>row_\<close>; the optional ones are
  \<open>None\<close> when \<open>undefined\<close>) and \<open>interface QuizQuestion\<close> (fields prefixed
  \<open>q_\<close>).
\<close>

record QuizRow =
  row_courseId :: jsstring
  row_chapterId :: jsstring
  row_lessonId :: jsstring
  row_topicId :: jsstring
  row_questionId :: jsstring
  row_question :: jsstring
  row_optionA :: "jsstring option"
  row_optionB :: "jsstring option"
  row_optionC :: "jsstring option"
  row_optionD :: "jsstring option"
  row_options :: "jsstring option"
  row_correctOption :: "jsstring option"

record QuizQuestion =
  q_id :: jsstring
  q_question :: jsstring
  q_options :: "jsstring list"
  q_correctIndex :: int
  q_lessonId :: jsstring
  q_topicId :: jsstring

text \<open>\<open>x ?? ''\<close> on an optional string.\<close>

definition orEmpty :: "jsstring option \<Rightarrow> jsstring" where
  "orEmpty x = (case x of None \<Rightarrow> [] | Some s \<Rightarrow> s)"

text \<open>\<open>.replace(/\r?\n|\r/g, ' ')\<close>.\<close>

fun collapseNewlines :: "jsstring \<Rightarrow> jsstring" where
  "collapseNewlines [] = []"
| "collapseNewlines (c # s) =
     (if c = 0xD
      then (case s of
              [] \<Rightarrow> [0x20]
            | d # s' \<Rightarrow> if d = 0xA then 0x20 # collapseNewlines s'
                         else 0x20 # collapseNewlines s)
      else if c = 0xA then 0x20 # collapseNewlines s
      else c # collapseNewlines s)"

text \<open>
  \<open>.replace(/^([A-D]\)|[A-D]\.)\s*/i, '')\<close>: a leading letter \<open>A\<close> to \<open>D\<close>
  in either case, followed by \<open>)\<close> or \<open>.\<close>, is removed together with the
  white space after it.
\<close>

definition stripMarker :: "jsstring \<Rightarrow> jsstring" where
  "stripMarker opt =
     (case opt of
        a # b # rest \<Rightarrow>
          if ((0x41 \<le> a \<and> a \<le> 0x44) \<or> (0x61 \<le> a \<and> a \<le> 0x64)) \<and> (b = 0x29 \<or> b = 0x2E)
          then dropWhile isWhiteSpace rest else opt
      | _ \<Rightarrow> opt)"

definition quizOptions :: "QuizRow \<Rightarrow> jsstring list" where
  "quizOptions row =
     (if row_options row \<noteq> None \<and> orEmpty (row_options row) \<noteq> []
         \<and> trim (orEmpty (row_options row)) \<noteq> []
      then filter (\<lambda>opt. opt \<noteq> [])
             (map (\<lambda>opt. stripMarker (trim opt))
                (split 0x7C (collapseNewlines (orEmpty (row_options row)))))
      else filter (\<lambda>opt. opt \<noteq> [])
             (map (\<lambda>opt. trim opt)
                [orEmpty (row_optionA row), orEmpty (row_optionB row),
                 orEmpty (row_optionC row), orEmpty (row_optionD row)]))"

text \<open>
  The state of the \<open>map\<close> callback of \<open>organizeQuiz\<close>: the set \<open>seenIds\<close>, the
  array \<open>duplicates\<close>, and how many times \<open>Math.random\<close> has been called. The
  text \<open>Math.random().toString(36).slice(2, 9)\<close> of the \<open>n\<close>-th call is
  \<open>random n\<close>.
\<close>

record QuizState =
  seenIds :: "jsstring list"
  duplicates :: "jsstring list"
  randomCalls :: nat

definition organizeQuizRow ::
  "(nat \<Rightarrow> jsstring) \<Rightarrow> QuizRow \<Rightarrow> QuizState \<Rightarrow> QuizQuestion \<times> QuizState" where
  "organizeQuizRow random row st =
     (let options = quizOptions row;
          correctLetter = toUpperCase (trim (orEmpty (row_correctOption row)));
          correctIndex = indexOf [js ''A'', js ''B'', js ''C'', js ''D''] correctLetter;
          st1 = (if row_questionId row \<noteq> []
                 then (if includes_js (seenIds st) (row_questionId row)
                       then st\<lparr>duplicates := duplicates st @ [row_questionId row]\<rparr>
                       else st\<lparr>seenIds := seenIds st @ [row_questionId row]\<rparr>)
                 else st);
          (ident, st2) =
            (if row_questionId row \<noteq> [] then (row_questionId row, st1)
             else ((if row_lessonId row \<noteq> [] then row_lessonId row else js ''lesson'')
                     @ js ''_'' @ random (randomCalls st1),
                   st1\<lparr>randomCalls := randomCalls st1 + 1\<rparr>))
      in (\<lparr> q_id = ident,
            q_question = row_question row,
            q_options = options,
            q_correctIndex = (if correctIndex \<ge> 0 then correctIndex else 0),
            q_lessonId = row_lessonId row,
            q_topicId = row_topicId row \<rparr>, st2))"

fun organizeQuizRows ::
  "(nat \<Rightarrow> jsstring) \<Rightarrow> QuizRow list \<Rightarrow> QuizState \<Rightarrow> QuizQuestion list \<times> QuizState" where
  "organizeQuizRows random [] st = ([], st)"
| "organizeQuizRows random (row # rows) st =
     (let (question, st1) = organizeQuizRow random row st;
          (questions, st2) = organizeQuizRows random rows st1
      in (question # questions, st2))"

text \<open>
  \<open>organizeQuiz\<close> returns the questions together with the lines written with
  \<open>console.warn\<close>.
\<close>

definition organizeQuiz ::
  "(nat \<Rightarrow> jsstring) \<Rightarrow> QuizRow list \<Rightarrow> QuizQuestion list \<times> jsstring list" where
  "organizeQuiz random quizRows =
     (let (questions, st) =
            organizeQuizRows random quizRows
              \<lparr>seenIds = [], duplicates = [], randomCalls = 0\<rparr>
      in (questions,
          if duplicates st \<noteq> []
          then (let uniq = newSet (duplicates st)
                in [[0x26A0, 0xFE0F] @ js '' Duplicate questionId(s) found in quiz CSV: ''
                      @ join (js '', '') uniq
                      @ js ''. Consider giving each question a unique questionId.''])
          else []))"

section \<open>CSV parsers (csv.ts in src/unnamed/part_009, and learning.ts)\<close>

text \<open>
  The state of the character loop of both parsers: \<open>rows\<close>, the current row
  and field, and whether the position is inside quotes. The code units are
  \<open>0x22\<close> for the double quote, \<open>0x2C\<close> for the comma, \<open>0xD\<close> and \<open>0xA\<close> for
  CR and LF, \<open>0xFEFF\<close> for the byte order mark.
\<close>

record ParserState =
  rows :: "jsstring list list"
  curRow :: "jsstring list"
  curField :: jsstring
  inQuotes :: bool

text \<open>
  The \<open>for\<close> loop of \<open>parseCSV\<close> in csv.ts over the text that is left. Where
  the source skips the next character with \<open>i++\<close>, the recursion continues
  after it.
\<close>

fun parseLoop :: "jsstring \<Rightarrow> ParserState \<Rightarrow> ParserState" where
  "parseLoop [] st = st"
| "parseLoop (ch # rest) st =
     (if ch = 0x22
      then (case rest of
              [] \<Rightarrow> parseLoop rest (st\<lparr>inQuotes := \<not> inQuotes st\<rparr>)
            | next # rest' \<Rightarrow>
                if inQuotes st \<and> next = 0x22
                then parseLoop rest' (st\<lparr>curField := curField st @ [0x22]\<rparr>)
                else parseLoop rest (st\<lparr>inQuotes := \<not> inQuotes st\<rparr>))
      else if \<not> inQuotes st \<and> ch = 0x2C
      then parseLoop rest (st\<lparr>curRow := curRow st @ [curField st], curField := []\<rparr>)
      else if \<not> inQuotes st \<and> ch = 0xD
      then (let st' = st\<lparr>rows := rows st @ [curRow st @ [curField st]],
                           curRow := [], curField := []\<rparr>
            in case rest of
                 [] \<Rightarrow> parseLoop rest st'
               | next # rest' \<Rightarrow> if next = 0xA then parseLoop rest' st' else parseLoop rest st')
      else if \<not> inQuotes st \<and> ch = 0xA
      then parseLoop rest (st\<lparr>rows := rows st @ [curRow st @ [curField st]],
                              curRow := [], curField := []\<rparr>)
      else parseLoop rest (st\<lparr>curField := curField st @ [ch]\<rparr>))"

text \<open>
  \<open>while (rows.length && rows[rows.length - 1].length === 1 && rows[rows.length - 1][0] === '') rows.pop()\<close>.
\<close>

definition popEmptyRows :: "jsstring list list \<Rightarrow> jsstring list list" where
  "popEmptyRows rs = rev (dropWhile (\<lambda>r. r = [[]]) (rev rs))"

definition stripBOM :: "jsstring \<Rightarrow> jsstring" where
  "stripBOM csvText = (case csvText of [] \<Rightarrow> [] | c # rest \<Rightarrow> if c = 0xFEFF then rest else csvText)"

text \<open>\<open>parseCSV\<close> of csv.ts.\<close>

definition parseCSV_csv :: "jsstring \<Rightarrow> jsstring list list" where
  "parseCSV_csv csvText =
     (let st = parseLoop (stripBOM csvText)
                 \<lparr>rows = [], curRow = [], curField = [], inQuotes = False\<rparr>;
          rows' = (if curField st \<noteq> [] \<or> length (curRow st) > 0
                   then rows st @ [curRow st @ [curField st]] else rows st)
      in popEmptyRows rows')"

text \<open>
  The \<open>for\<close> loop of \<open>parseCSV\<close> in learning.ts. It differs from the loop of
  csv.ts in that a finished row is pushed with every field trimmed.
\<close>

fun parseLoop_learning :: "jsstring \<Rightarrow> ParserState \<Rightarrow> ParserState" where
  "parseLoop_learning [] st = st"
| "parseLoop_learning (char # rest) st =
     (if char = 0x22 \<and> inQuotes st \<and> (case rest of [] \<Rightarrow> False | nextChar # _ \<Rightarrow> nextChar = 0x22)
      then parseLoop_learning (tl rest) (st\<lparr>curField := curField st @ [0x22]\<rparr>)
      else if char = 0x22
      then parseLoop_learning rest (st\<lparr>inQuotes := \<not> inQuotes st\<rparr>)
      else if char = 0x2C \<and> \<not> inQuotes st
      then parseLoop_learning rest (st\<lparr>curRow := curRow st @ [curField st], curField := []\<rparr>)
      else if (char = 0xA \<or> char = 0xD) \<and> \<not> inQuotes st
      then (let st' = st\<lparr>rows := rows st @ [map trim (curRow st @ [curField st])],
                           curRow := [], curField := []\<rparr>
            in if char = 0xD \<and> (case rest of [] \<Rightarrow> False | nextChar # _ \<Rightarrow> nextChar = 0xA)
               then parseLoop_learning (tl rest) st'
               else parseLoop_learning rest st')
      else parseLoop_learning rest (st\<lparr>curField := curField st @ [char]\<rparr>))"

text \<open>
  \<open>parseCSV\<close> of learning.ts up to the removal of trailing empty rows, and the
  whole function, which then fills every row up to \<open>maxCols\<close>.
\<close>

definition parseRows_learning :: "jsstring \<Rightarrow> jsstring list list" where
  "parseRows_learning csvText =
     (if csvText = [] then []
      else (let st = parseLoop_learning (stripBOM csvText)
                       \<lparr>rows = [], curRow = [], curField = [], inQuotes = False\<rparr>;
                currentRow = curRow st @ [curField st];
                rows' = (if length currentRow > 1 \<or> (length currentRow = 1 \<and> currentRow ! 0 \<noteq> [])
                         then rows st @ [map trim currentRow] else rows st)
            in popEmptyRows rows'))"

definition parseCSV_learning :: "jsstring \<Rightarrow> jsstring list list" where
  "parseCSV_learning csvText =
     (let rows' = parseRows_learning csvText;
          maxCols = foldl (\<lambda>m r. max m (length r)) 0 rows'
      in map (\<lambda>r. if length r < maxCols then r @ replicate (maxCols - length r) [] else r) rows')"

section \<open>Task rows (csv.ts, src/unnamed/part_009)\<close>

text \<open>
  A JavaScript number as \<open>parseInt\<close> can return it: \<open>NaN\<close>, a double whose
  value is the integer \<open>n\<close> (\<open>Finite n\<close>; the two zeros are not told apart),
  or an infinity.
\<close>

datatype number = NaN | Finite int | PosInfinity | NegInfinity

text \<open>The number of binary digits of a natural number.\<close>

fun bitlen :: "nat \<Rightarrow> nat" where
  "bitlen n = (if n = 0 then 0 else Suc (bitlen (n div 2)))"

declare bitlen.simps [simp del]

text \<open>
  The double nearest to a mathematical integer: integers of at most 53 binary
  digits are doubles; a longer one keeps its 53 leading digits, rounded to
  nearest with ties to even, and becomes an infinity when the rounded value
  reaches \<open>2^1024\<close>.
\<close>

definition doubleLimit :: nat where
  "doubleLimit = 2 ^ 1024"

definition toDouble :: "int \<Rightarrow> number" where
  "toDouble x =
     (let n = nat \<bar>x\<bar> in
      if bitlen n \<le> 53 then Finite x
      else (let e = bitlen n - 53;
                q = n div 2 ^ e;
                r = n mod 2 ^ e;
                half = 2 ^ (e - 1);
                q' = (if r > half \<or> (r = half \<and> odd q) then q + 1 else q);
                v = q' * 2 ^ e
            in if v \<ge> doubleLimit then (if x < 0 then NegInfinity else PosInfinity)
               else Finite (if x < 0 then - int v else int v)))"

text \<open>
  \<open>parseInt(string)\<close> with no radix: leading white space is skipped, a sign is
  read, \<open>0x\<close> or \<open>0X\<close> selects radix 16, and the longest run of digits of the
  radix is converted; with no digit the result is \<open>NaN\<close>. The result is the
  double nearest to the signed integer read. (For radix 10 the language also
  allows an implementation to replace the digits after the twentieth by zeros
  before rounding; the model rounds the integer as written.)
\<close>

definition digitValue :: "codeunit \<Rightarrow> nat option" where
  "digitValue c =
     (if 0x30 \<le> c \<and> c \<le> 0x39 then Some (unat c - 48)
      else if 0x61 \<le> c \<and> c \<le> 0x7A then Some (unat c - 87)
      else if 0x41 \<le> c \<and> c \<le> 0x5A then Some (unat c - 55)
      else None)"

definition isRadixDigit :: "nat \<Rightarrow> codeunit \<Rightarrow> bool" where
  "isRadixDigit radix c = (case digitValue c of None \<Rightarrow> False | Some v \<Rightarrow> v < radix)"

definition digitsValue :: "nat \<Rightarrow> jsstring \<Rightarrow> int" where
  "digitsValue radix z =
     foldl (\<lambda>acc c. acc * int radix + int (case digitValue c of None \<Rightarrow> 0 | Some v \<Rightarrow> v)) 0 z"

definition parseInt :: "jsstring \<Rightarrow> number" where
  "parseInt string =
     (let s = dropWhile isWhiteSpace string;
          (sign, s) = (case s of
                         [] \<Rightarrow> (1, s)
                       | c # rest \<Rightarrow> if c = 0x2D then (-1, rest)
                                    else if c = 0x2B then (1, rest) else (1, s));
          (radix, s) = (case s of
                          a # b # rest \<Rightarrow>
                            if a = 0x30 \<and> (b = 0x78 \<or> b = 0x58) then (16, rest) else (10, s)
                        | _ \<Rightarrow> (10, s));
          z = takeWhile (isRadixDigit radix) s
      in if z = [] then NaN else toDouble (sign * digitsValue radix z))"

text \<open>\<open>parseInt(value) || 0\<close>: \<open>NaN\<close> and zero are falsy, every other number is kept.\<close>

definition parseIntOrZero :: "jsstring \<Rightarrow> number" where
  "parseIntOrZero value =
     (let n = parseInt value in if n = NaN \<or> n = Finite 0 then Finite 0 else n)"

text \<open>
  A task row is the object \<open>task\<close> built in \<open>parseTaskRows\<close>: from property
  names to strings, or to a number under \<open>xp\<close>. The assignment
  \<open>task[header] = value\<close> creates or overwrites an own property, except under
  the name \<open>__proto__\<close>, where it reaches the setter of \<open>Object.prototype\<close>,
  which ignores strings and numbers.
\<close>

datatype cell = Str jsstring | Num number

type_synonym taskRow = "jsstring \<rightharpoonup> cell"

definition setProperty :: "taskRow \<Rightarrow> jsstring \<Rightarrow> cell \<Rightarrow> taskRow" where
  "setProperty task key v = (if key = js ''__proto__'' then task else task(key \<mapsto> v))"

text \<open>\<open>row[index] ?? ''\<close>.\<close>

definition cellAt :: "jsstring list \<Rightarrow> nat \<Rightarrow> jsstring" where
  "cellAt row index = (if index < length row then row ! index else [])"

text \<open>
  \<open>rawHeaders.forEach((header, index) => ...)\<close> from position \<open>index\<close> on.
\<close>

fun fillTask :: "jsstring list \<Rightarrow> jsstring list \<Rightarrow> nat \<Rightarrow> taskRow \<Rightarrow> taskRow" where
  "fillTask [] row index task = task"
| "fillTask (header # headers) row index task =
     (let value = cellAt row index
      in fillTask headers row (index + 1)
           (if header = js ''xp''
            then setProperty task header (Num (parseIntOrZero value))
            else setProperty task header (Str value)))"

text \<open>The callback of \<open>rows.map\<close> in \<open>parseTaskRows\<close>: the object built for one row.\<close>

definition taskOfRow :: "jsstring list \<Rightarrow> jsstring list \<Rightarrow> taskRow" where
  "taskOfRow rawHeaders row =
     (let task = fillTask rawHeaders row 0 Map.empty
      in if task (js ''instructions'') = None
         then task(js ''instructions'' \<mapsto> Str [])
         else task)"

definition parseTaskRows :: "jsstring list list \<Rightarrow> taskRow list" where
  "parseTaskRows csvData =
     (case csvData of
        [] \<Rightarrow> []
      | first # rows' \<Rightarrow>
          (let rawHeaders = map (\<lambda>h. trim h) first
           in map (\<lambda>row. taskOfRow rawHeaders row) rows'))"

section \<open>Browser storage (csv.ts, learning.ts)\<close>

text \<open>
  \<open>localStorage\<close> and \<open>sessionStorage\<close> map string keys to string items. The
  engine keeps two kinds of item: plain strings such as \<open>'true'\<close>, and the JSON
  text of an array of strings written by \<open>JSON.stringify\<close>. \<open>Ids a\<close> stands for
  the JSON text of the array \<open>a\<close>: \<open>JSON.parse\<close> gives \<open>a\<close> back, and the text
  is never the empty string, so it is truthy.
\<close>

datatype item = Plain jsstring | Ids "jsstring list"

type_synonym storage = "jsstring \<rightharpoonup> item"

record Browser =
  localStorage :: storage
  sessionStorage :: storage

text \<open>
  \<open>existing ? JSON.parse(existing) : []\<close>, and likewise
  \<open>JSON.parse(getItem(key) || '[]')\<close>: a missing item (\<open>null\<close>) and the empty
  string are falsy and give the empty array. On any other plain string
  \<open>JSON.parse\<close> throws, or returns something that is not an array of strings;
  the result is \<open>None\<close> there and the caller stops.
\<close>

fun parseIds :: "item option \<Rightarrow> jsstring list option" where
  "parseIds None = Some []"
| "parseIds (Some (Ids a)) = Some a"
| "parseIds (Some (Plain s)) = (if s = [] then Some [] else None)"

definition completedTasksKey :: "jsstring \<Rightarrow> jsstring" where
  "completedTasksKey courseId = js ''course_'' @ courseId @ js ''_completed_tasks''"

definition getCompletedTasks :: "jsstring \<Rightarrow> Browser \<Rightarrow> jsstring list option" where
  "getCompletedTasks courseId b =
     (let completedKey = completedTasksKey courseId;
          completed = sessionStorage b completedKey
      in parseIds completed)"

text \<open>
  \<open>markTaskCompleted\<close> returns the browser state after the call; \<open>None\<close> when
  \<open>JSON.parse\<close> did not yield an array, in which case nothing was written.
\<close>

definition markTaskCompleted :: "jsstring \<Rightarrow> jsstring \<Rightarrow> Browser \<Rightarrow> Browser option" where
  "markTaskCompleted courseId taskId b =
     (let completedKey = completedTasksKey courseId;
          existing = sessionStorage b completedKey
      in do {
        completedTasks' \<leftarrow> parseIds existing;
        if \<not> includes_js completedTasks' taskId
        then Some (b\<lparr>sessionStorage :=
                      (sessionStorage b)(completedKey \<mapsto> Ids (completedTasks' @ [taskId]))\<rparr>)
        else Some b
      })"

definition isTaskCompleted :: "jsstring \<Rightarrow> jsstring \<Rightarrow> Browser \<Rightarrow> bool option" where
  "isTaskCompleted courseId taskId b =
     do { completedTasks' \<leftarrow> getCompletedTasks courseId b;
          Some (includes_js completedTasks' taskId) }"

definition watchedTopicsKey :: "jsstring \<Rightarrow> jsstring" where
  "watchedTopicsKey lessonId = js ''lesson_'' @ lessonId @ js ''_watchedTopics''"

definition getWatchedTopics :: "jsstring \<Rightarrow> Browser \<Rightarrow> jsstring list option" where
  "getWatchedTopics lessonId b =
     (let key = watchedTopicsKey lessonId;
          watched = localStorage b key
      in parseIds watched)"

definition markTopicWatched :: "jsstring \<Rightarrow> jsstring \<Rightarrow> Browser \<Rightarrow> Browser option" where
  "markTopicWatched lessonId topicId b =
     do {
       watched \<leftarrow> getWatchedTopics lessonId b;
       if \<not> includes_js watched topicId
       then Some (b\<lparr>localStorage :=
                     (localStorage b)(watchedTopicsKey lessonId \<mapsto> Ids (watched @ [topicId]))\<rparr>)
       else Some b
     }"

section \<open>Dates\<close>

text \<open>
  A \<open>Date\<close> holds a time value: milliseconds since 1970-01-01T00:00:00Z. The
  methods the engine calls (\<open>getDay\<close>, \<open>getDate\<close>, \<open>setDate\<close>, \<open>setHours\<close>)
  work in the local time of the host. The model takes the host's offset from UTC
  as the parameter \<open>tz\<close>, in minutes east of UTC, constant over the period
  considered (\<open>330\<close> for India, \<open>-300\<close> for Bogota and Lima).
\<close>

type_synonym timevalue = int

definition msPerDay :: int where
  "msPerDay = 86400000"

definition LocalTime :: "int \<Rightarrow> timevalue \<Rightarrow> int" where
  "LocalTime tz t = t + tz * 60000"

definition Day :: "int \<Rightarrow> int" where
  "Day t = t div msPerDay"

definition WeekDay :: "int \<Rightarrow> int" where
  "WeekDay t = (Day t + 4) mod 7"

text \<open>\<open>d.getDay()\<close>: the local day of the week, \<open>0\<close> for Sunday.\<close>

definition getDay :: "int \<Rightarrow> timevalue \<Rightarrow> int" where
  "getDay tz t = WeekDay (LocalTime tz t)"

text \<open>
  \<open>d.setHours(0, 0, 0, 0)\<close>: the time value of local midnight of the local day
  of \<open>d\<close>.
\<close>

definition setHoursZero :: "int \<Rightarrow> timevalue \<Rightarrow> timevalue" where
  "setHoursZero tz t = Day (LocalTime tz t) * msPerDay - tz * 60000"

text \<open>
  \<open>d.setDate(d.getDate() + 1)\<close>: the same local time of day on the next local
  calendar day, which under a constant offset is one day later.
\<close>

definition setDateNext :: "int \<Rightarrow> timevalue \<Rightarrow> timevalue" where
  "setDateNext tz t = t + msPerDay"

text \<open>
  The number of days from 1970-01-01 to the day \<open>d\<close> of month \<open>m\<close> of year
  \<open>y\<close> in the Gregorian calendar, and \<open>new Date('YYYY-MM-DD')\<close>: a date-only
  ISO string denotes midnight UTC of that day.
\<close>

definition daysFromCivil :: "int \<Rightarrow> int \<Rightarrow> int \<Rightarrow> int" where
  "daysFromCivil y m d =
     (let y' = (if m \<le> 2 then y - 1 else y);
          era = y' div 400;
          yoe = y' - era * 400;
          doy = (153 * (if m > 2 then m - 3 else m + 9) + 2) div 5 + d - 1;
          doe = yoe * 365 + yoe div 4 - yoe div 100 + doy
      in era * 146097 + doe - 719468)"

definition dateOnly :: "int \<Rightarrow> int \<Rightarrow> int \<Rightarrow> timevalue" where
  "dateOnly y m d = daysFromCivil y m d * msPerDay"

section \<open>Unlock scheduler (lessonUnlock, src/unnamed/part_008)\<close>

text \<open>A template literal prints a small non-negative integer in decimal.\<close>

fun decimal :: "nat \<Rightarrow> jsstring" where
  "decimal n = (if n < 10 then [of_nat (48 + n)]
                else decimal (n div 10) @ [of_nat (48 + n mod 10)])"

declare decimal.simps [simp del]

text \<open>
  The objects \<open>generateLessonIds\<close> pushes (\<open>lid\<close> is their \<open>id\<close>), and the
  schedule entries \<open>{...lesson, unlockDate, isFirstLesson}\<close>.
\<close>

record LessonInfo =
  lid :: jsstring
  chapterNumber :: nat
  lessonNumber :: nat
  globalIndex :: nat

record ScheduleEntry = LessonInfo +
  unlockDate :: timevalue
  isFirstLesson :: bool

definition scheduleEntry :: "LessonInfo \<Rightarrow> timevalue \<Rightarrow> bool \<Rightarrow> ScheduleEntry" where
  "scheduleEntry lesson date first =
     \<lparr> lid = lid lesson, chapterNumber = chapterNumber lesson,
       lessonNumber = lessonNumber lesson, globalIndex = globalIndex lesson,
       unlockDate = date, isFirstLesson = first \<rparr>"

definition generateLessonIds :: "LessonInfo list" where
  "generateLessonIds =
     (let (lessons, lessonIndex) =
            fold (\<lambda>i (lessons, lessonIndex).
                    (lessons @ [\<lparr>lid = js ''les_1_'' @ decimal i, chapterNumber = 1,
                                 lessonNumber = i, globalIndex = lessonIndex\<rparr>],
                     lessonIndex + 1))
                 [1..<10] ([], 0);
          (lessons, lessonIndex) =
            fold (\<lambda>chapter (lessons, lessonIndex).
                    let lessonsInChapter = (if chapter = 5 then 11 else 10) in
                    fold (\<lambda>lesson (lessons, lessonIndex).
                            (lessons @ [\<lparr>lid = js ''les_'' @ decimal chapter @ js ''_''
                                               @ decimal lesson,
                                         chapterNumber = chapter, lessonNumber = lesson,
                                         globalIndex = lessonIndex\<rparr>],
                             lessonIndex + 1))
                         [1..<lessonsInChapter + 1] (lessons, lessonIndex))
                 [2..<13] (lessons, lessonIndex)
      in lessons)"

text \<open>
  \<open>do { currentDate.setDate(currentDate.getDate() + 1) } while (currentDate.getDay() === 0)\<close>.
  The loop ends: the day after a Sunday is a Monday.
\<close>

function skipToNextNonSunday :: "int \<Rightarrow> timevalue \<Rightarrow> timevalue" where
  "skipToNextNonSunday tz currentDate =
     (let currentDate' = setDateNext tz currentDate
      in if getDay tz currentDate' = 0 then skipToNextNonSunday tz currentDate'
         else currentDate')"
  by pat_completeness auto
termination
proof (relation "measure (\<lambda>(tz, d). nat ((7 - getDay tz d) mod 7))")
  show "wf (measure (\<lambda>(tz, d). nat ((7 - getDay tz d) mod 7)))"
    by simp
next
  fix tz currentDate x
  assume x: "x = setDateNext tz currentDate" and sun: "getDay tz x = 0"
  have shift: "Day (LocalTime tz x) = Day (LocalTime tz currentDate) + 1"
    unfolding x setDateNext_def LocalTime_def Day_def msPerDay_def by simp
  from sun have "(Day (LocalTime tz currentDate) + 5) mod 7 = 0"
    unfolding getDay_def WeekDay_def shift by (simp add: add.commute)
  then have "getDay tz currentDate = 6"
    unfolding getDay_def WeekDay_def by presburger
  with sun show "((tz, x), (tz, currentDate)) \<in> measure (\<lambda>(tz, d). nat ((7 - getDay tz d) mod 7))"
    by simp
qed

declare skipToNextNonSunday.simps [simp del]

text \<open>
  The body of \<open>lessons.forEach((lesson, index) => ...)\<close> in
  \<open>generateUnlockSchedule\<close>, run over the remaining lessons from position
  \<open>index\<close> on. The state is the \<open>schedule\<close> object and \<open>currentDate\<close>.
\<close>

fun scheduleLessons ::
  "int \<Rightarrow> timevalue \<Rightarrow> LessonInfo list \<Rightarrow> nat
     \<Rightarrow> (jsstring \<rightharpoonup> ScheduleEntry) \<times> timevalue
     \<Rightarrow> (jsstring \<rightharpoonup> ScheduleEntry) \<times> timevalue" where
  "scheduleLessons tz courseStart [] index st = st"
| "scheduleLessons tz courseStart (lesson # rest) index (schedule, currentDate) =
     (if index = 0
      then scheduleLessons tz courseStart rest (index + 1)
             (schedule(lid lesson \<mapsto> scheduleEntry lesson courseStart True), currentDate)
      else (let currentDate' = skipToNextNonSunday tz currentDate
            in scheduleLessons tz courseStart rest (index + 1)
                 (schedule(lid lesson \<mapsto> scheduleEntry lesson currentDate' False),
                  currentDate')))"

definition generateUnlockSchedule :: "int \<Rightarrow> timevalue \<Rightarrow> (jsstring \<rightharpoonup> ScheduleEntry)" where
  "generateUnlockSchedule tz courseStart =
     (let lessons = generateLessonIds;
          currentDate = courseStart
      in fst (scheduleLessons tz courseStart lessons 0 (Map.empty, currentDate)))"

text \<open>
  \<open>class LessonUnlockSystem\<close>. The constructor is given the time value that
  \<open>new Date(courseStartDate)\<close> produced.
\<close>

record LessonUnlockSystem =
  courseStartDate :: timevalue
  unlockSchedule :: "jsstring \<rightharpoonup> ScheduleEntry"

definition newLessonUnlockSystem :: "int \<Rightarrow> timevalue \<Rightarrow> LessonUnlockSystem" where
  "newLessonUnlockSystem tz start =
     \<lparr> courseStartDate = start, unlockSchedule = generateUnlockSchedule tz start \<rparr>"

text \<open>\<open>export const lessonUnlockSystem = new LessonUnlockSystem('2025-07-24')\<close>.\<close>

definition lessonUnlockSystem :: "int \<Rightarrow> LessonUnlockSystem" where
  "lessonUnlockSystem tz = newLessonUnlockSystem tz (dateOnly 2025 7 24)"

text \<open>
  Reading \<open>obj[key]\<close> on an object created by \<open>{}\<close>: an own property wins;
  otherwise the key is looked up on \<open>Object.prototype\<close>, whose members (all of
  them functions, except \<open>__proto__\<close>, which yields \<open>Object.prototype\<close>
  itself) are truthy and have no \<open>unlockDate\<close>; otherwise the result is
  \<open>undefined\<close>.
\<close>

definition objectPrototypeKeys :: "jsstring list" where
  "objectPrototypeKeys =
     map js [''constructor'', ''hasOwnProperty'', ''isPrototypeOf'',
             ''propertyIsEnumerable'', ''toLocaleString'', ''toString'', ''valueOf'',
             ''__defineGetter__'', ''__defineSetter__'', ''__lookupGetter__'',
             ''__lookupSetter__'', ''__proto__'']"

datatype 'a property = Own 'a | Inherited | Undefined

definition getProperty :: "(jsstring \<rightharpoonup> 'a) \<Rightarrow> jsstring \<Rightarrow> 'a property" where
  "getProperty obj key =
     (case obj key of
        Some v \<Rightarrow> Own v
      | None \<Rightarrow> if includes_js objectPrototypeKeys key then Inherited else Undefined)"

text \<open>
  \<open>isLessonUnlockedById\<close> returns its result together with the lines it wrote
  with \<open>console.warn\<close>. For an inherited member, \<open>lesson.unlockDate\<close> is
  \<open>undefined\<close>, \<open>new Date(undefined)\<close> is an invalid date, and \<open>>=\<close> against
  an invalid date is false.
\<close>

definition isLessonUnlockedById ::
  "int \<Rightarrow> LessonUnlockSystem \<Rightarrow> jsstring \<Rightarrow> timevalue \<Rightarrow> bool \<times> jsstring list" where
  "isLessonUnlockedById tz this lessonId currentDate =
     (case getProperty (unlockSchedule this) lessonId of
        Undefined \<Rightarrow>
          (True, [js ''Lesson '' @ lessonId @ js '' not found in unlock schedule''])
      | Inherited \<Rightarrow> (False, [])
      | Own lesson \<Rightarrow>
          (let today = setHoursZero tz currentDate;
               unlockDate' = setHoursZero tz (unlockDate lesson)
           in (today \<ge> unlockDate', [])))"

text \<open>
  The exported helper
  \<open>isLessonUnlocked = (lessonId, currentDate) => lessonUnlockSystem.isLessonUnlockedById(lessonId, currentDate)\<close>.
\<close>

definition isLessonUnlocked :: "int \<Rightarrow> jsstring \<Rightarrow> timevalue \<Rightarrow> bool \<times> jsstring list" where
  "isLessonUnlocked tz lessonId currentDate =
     isLessonUnlockedById tz (lessonUnlockSystem tz) lessonId currentDate"

text \<open>\<open>interface Lesson\<close> of csv.ts, with the field names prefixed.\<close>

record Lesson =
  lesson_id :: jsstring
  lesson_name :: jsstring
  lesson_chapterId :: jsstring
  lesson_courseId :: jsstring
  lesson_tasks :: "Task list"

text \<open>
  \<open>lessons.some(lesson => this.isLessonUnlockedById(lesson.id, currentDate))\<close>:
  \<open>some\<close> stops at the first lesson for which the callback is true.
\<close>

fun isChapterUnlocked ::
  "int \<Rightarrow> LessonUnlockSystem \<Rightarrow> int \<Rightarrow> Lesson list \<Rightarrow> timevalue \<Rightarrow> bool \<times> jsstring list" where
  "isChapterUnlocked tz this chapterNo [] currentDate = (False, [])"
| "isChapterUnlocked tz this chapterNo (lesson # rest) currentDate =
     (let (unlocked, warned) = isLessonUnlockedById tz this (lesson_id lesson) currentDate
      in if unlocked then (True, warned)
         else (let (unlocked', warned') = isChapterUnlocked tz this chapterNo rest currentDate
               in (unlocked', warned @ warned')))"

section \<open>Lesson completion on the chapter page (src/unnamed/part_006)\<close>

text \<open>\<open>interface Chapter\<close> of csv.ts, with the field names prefixed.\<close>

record Chapter =
  chapter_id :: jsstring
  chapter_name :: jsstring
  chapter_courseId :: jsstring
  chapter_lessons :: "Lesson list"

definition completedLessonsKey :: "jsstring \<Rightarrow> jsstring" where
  "completedLessonsKey courseId = js ''course_'' @ courseId @ js ''_completed_lessons''"

definition learningDoneKey :: "jsstring \<Rightarrow> jsstring" where
  "learningDoneKey lessonId = js ''lesson_'' @ lessonId @ js ''_learningDone''"

text \<open>
  The component reads the route parameter \<open>courseId\<close>, its state
  \<open>lessonHasLearning\<close> (an object from lesson ids to booleans) and the two
  storage areas. \<open>getLessonCompletedTasks\<close> merges the completed-task ids of
  \<open>localStorage\<close> and \<open>sessionStorage\<close> through a \<open>Set\<close> and keeps those that
  are ids of tasks of the lesson.
\<close>

definition getLessonCompletedTasks :: "jsstring \<Rightarrow> Lesson \<Rightarrow> Browser \<Rightarrow> jsstring list option" where
  "getLessonCompletedTasks courseId lesson b =
     do {
       localStorageTasks \<leftarrow> parseIds (localStorage b (completedTasksKey courseId));
       sessionStorageTasks \<leftarrow> getCompletedTasks courseId b;
       let allCompletedTasks = newSet (localStorageTasks @ sessionStorageTasks);
           lessonTaskIds = map task_id (lesson_tasks lesson)
       in Some (filter (\<lambda>taskId. includes_js lessonTaskIds taskId) allCompletedTasks)
     }"

definition getCompletedLessonsList :: "jsstring \<Rightarrow> Browser \<Rightarrow> jsstring list option" where
  "getCompletedLessonsList courseId b = parseIds (localStorage b (completedLessonsKey courseId))"

text \<open>
  \<open>localStorage.getItem(key) === 'true'\<close>. The JSON text of an array begins with
  \<open>[\<close>, so it is never \<open>'true'\<close>.
\<close>

definition isLessonLearningDone :: "jsstring \<Rightarrow> Browser \<Rightarrow> bool" where
  "isLessonLearningDone lessonId b =
     (case localStorage b (learningDoneKey lessonId) of
        Some (Plain s) \<Rightarrow> s = js ''true''
      | _ \<Rightarrow> False)"

text \<open>The truthiness of \<open>lessonHasLearning[lesson.id]\<close>.\<close>

definition hasLearningContent :: "(jsstring \<rightharpoonup> bool) \<Rightarrow> jsstring \<Rightarrow> bool" where
  "hasLearningContent lessonHasLearning lessonId =
     (case getProperty lessonHasLearning lessonId of
        Own flag \<Rightarrow> flag
      | Inherited \<Rightarrow> True
      | Undefined \<Rightarrow> False)"

text \<open>
  The value \<open>isLessonFullyComplete\<close> computed for one lesson card, from
  \<open>lessonCompletedTasks\<close>, \<open>lessonProgress\<close>, \<open>hasTasks\<close>,
  \<open>completedLessonsList\<close>, \<open>learningDone\<close> and \<open>hasLearning\<close>.
\<close>

definition isLessonFullyComplete ::
  "jsstring \<Rightarrow> (jsstring \<rightharpoonup> bool) \<Rightarrow> Lesson \<Rightarrow> Browser \<Rightarrow> bool option" where
  "isLessonFullyComplete courseId lessonHasLearning lesson b =
     do {
       lessonCompletedTasks \<leftarrow> getLessonCompletedTasks courseId lesson b;
       let lessonProgress = calculateProgress (lesson_tasks lesson) lessonCompletedTasks;
           hasTasks = (lesson_tasks lesson \<noteq> []) in
       do {
         completedLessonsList \<leftarrow> getCompletedLessonsList courseId b;
         let learningDone = (isLessonLearningDone (lesson_id lesson) b
                               \<or> includes_js completedLessonsList (lesson_id lesson));
             hasLearning = (hasLearningContent lessonHasLearning (lesson_id lesson) \<or> learningDone)
         in Some
             (if hasTasks \<and> hasLearning
              then (let tasksComplete =
                          (completedTasks lessonProgress = length (lesson_tasks lesson)
                             \<and> length (lesson_tasks lesson) > 0);
                        learningComplete = learningDone
                    in tasksComplete \<or> learningComplete)
              else if hasTasks
              then completedTasks lessonProgress = length (lesson_tasks lesson)
                     \<and> length (lesson_tasks lesson) > 0
              else if hasLearning
              then includes_js completedLessonsList (lesson_id lesson) \<or> learningDone
              else False)
       }
     }"

text \<open>
  \<open>computeLessonLevelCompletion\<close>: the body of the \<open>for\<close> loop decides
  \<open>isComplete\<close> for one lesson; the loop counts the lessons for which it is true.
\<close>

definition lessonCountsAsComplete ::
  "jsstring \<Rightarrow> (jsstring \<rightharpoonup> bool) \<Rightarrow> jsstring list \<Rightarrow> Lesson \<Rightarrow> Browser \<Rightarrow> bool option" where
  "lessonCountsAsComplete courseId lessonHasLearning completedLessonsSet lesson b =
     (let hasTasks = (lesson_tasks lesson \<noteq> []) in
      do {
        completedLessonsList \<leftarrow> getCompletedLessonsList courseId b;
        let learningDone = (isLessonLearningDone (lesson_id lesson) b
                              \<or> includes_js completedLessonsList (lesson_id lesson));
            hasLearning = (hasLearningContent lessonHasLearning (lesson_id lesson) \<or> learningDone)
        in
          if hasTasks \<and> hasLearning
          then do {
            completedTasks' \<leftarrow> getLessonCompletedTasks courseId lesson b;
            let tasksComplete = (length completedTasks' = length (lesson_tasks lesson)
                                   \<and> length (lesson_tasks lesson) > 0);
                learningComplete = includes_js completedLessonsSet (lesson_id lesson)
            in Some (tasksComplete \<or> learningComplete)
          }
          else if hasTasks
          then do {
            completedTasks' \<leftarrow> getLessonCompletedTasks courseId lesson b;
            Some (length completedTasks' = length (lesson_tasks lesson)
                    \<and> length (lesson_tasks lesson) > 0)
          }
          else if hasLearning
          then Some (includes_js completedLessonsSet (lesson_id lesson))
          else Some False
      })"

record LessonLevelCompletion =
  completedLessonCount :: nat
  totalLessonCount :: nat
  percentage :: rat

fun countCompleteLessons ::
  "jsstring \<Rightarrow> (jsstring \<rightharpoonup> bool) \<Rightarrow> jsstring list \<Rightarrow> Lesson list \<Rightarrow> Browser
     \<Rightarrow> nat \<Rightarrow> nat option" where
  "countCompleteLessons courseId lessonHasLearning completedLessonsSet [] b count = Some count"
| "countCompleteLessons courseId lessonHasLearning completedLessonsSet (lesson # rest) b count =
     do {
       isComplete \<leftarrow>
         lessonCountsAsComplete courseId lessonHasLearning completedLessonsSet lesson b;
       countCompleteLessons courseId lessonHasLearning completedLessonsSet rest b
         (if isComplete then count + 1 else count)
     }"

definition computeLessonLevelCompletion ::
  "jsstring \<Rightarrow> (jsstring \<rightharpoonup> bool) \<Rightarrow> Chapter option \<Rightarrow> Browser
     \<Rightarrow> LessonLevelCompletion option" where
  "computeLessonLevelCompletion courseId lessonHasLearning chapter b =
     (case chapter of
        None \<Rightarrow> Some \<lparr>completedLessonCount = 0, totalLessonCount = 0, percentage = 0\<rparr>
      | Some ch \<Rightarrow>
          do {
            completedLessonsList \<leftarrow> getCompletedLessonsList courseId b;
            let completedLessonsSet = newSet completedLessonsList;
                totalLessonCount' = length (chapter_lessons ch)
            in do {
              completedLessonCount' \<leftarrow>
                countCompleteLessons courseId lessonHasLearning completedLessonsSet
                  (chapter_lessons ch) b 0;
              Some \<lparr> completedLessonCount = completedLessonCount',
                     totalLessonCount = totalLessonCount',
                     percentage = (if totalLessonCount' = 0 then 0
                                   else (of_nat completedLessonCount' / of_nat totalLessonCount') * 100) \<rparr>
            }
          })"

text \<open>
  A mixed lesson with one task, none completed, in a browser where the lesson's
  learning-done flag is set and no completed-lesson list is stored.
\<close>

definition flagOnlyTask :: Task where
  "flagOnlyTask =
     \<lparr> task_id = js ''t1'', task_title = js ''Task'', task_scenario = js ''S'',
       task_lessonId = js ''les_1_1'', task_chapterId = js ''ch1'', task_courseId = js ''c1'',
       task_resources = \<lparr>pdfs = [], forms = [], answerKey = []\<rparr>,
       task_xp = 10, task_instructions = None \<rparr>"

definition flagOnlyLesson :: Lesson where
  "flagOnlyLesson =
     \<lparr> lesson_id = js ''les_1_1'', lesson_name = js ''Intro'', lesson_chapterId = js ''ch1'',
       lesson_courseId = js ''c1'', lesson_tasks = [flagOnlyTask] \<rparr>"

definition flagOnlyBrowser :: Browser where
  "flagOnlyBrowser =
     \<lparr> localStorage = [js ''lesson_les_1_1_learningDone'' \<mapsto> Plain (js ''true'')],
       sessionStorage = Map.empty \<rparr>"

section \<open>The lesson enumeration as the specification words it\<close>

text \<open>
  Lesson ids have the form \<open>les_{chapter}_{n}\<close>; chapter 1 has 9 lessons,
  chapters 2 to 12 have 10 lessons each, except chapter 5, which has 11.
\<close>

definition lessonKey :: "nat \<Rightarrow> nat \<Rightarrow> jsstring" where
  "lessonKey chapter lesson = js ''les_'' @ decimal chapter @ js ''_'' @ decimal lesson"

definition lessonsInChapter :: "nat \<Rightarrow> nat" where
  "lessonsInChapter chapter = (if chapter = 1 then 9 else if chapter = 5 then 11 else 10)"

definition enumeration :: "(nat \<times> nat) list" where
  "enumeration =
     concat (map (\<lambda>chapter. map (Pair chapter) [1..<lessonsInChapter chapter + 1]) [1..<13])"

definition lessonTriple :: "'a LessonInfo_scheme \<Rightarrow> nat \<times> nat \<times> jsstring" where
  "lessonTriple x = (chapterNumber x, lessonNumber x, lid x)"

section \<open>Facts about the helpers\<close>

lemma includes_iff: "includes_js xs x \<longleftrightarrow> x \<in> set xs"
  by (induction xs) auto

lemma foldl_add_sum_list:
  "foldl (\<lambda>sum t. sum + f t) (a::int) xs = a + sum_list (map f xs)"
  by (induction xs arbitrary: a) simp_all

lemma sum_list_filter_index:
  "sum_list (map f (filter P xs)) = (\<Sum>i | i < length xs \<and> P (xs ! i). (f (xs ! i) :: int))"
proof -
  have "sum_list (map f (filter P xs)) = sum_list (map (\<lambda>x. if P x then f x else 0) xs)"
    by (induction xs) simp_all
  also have "\<dots> = (\<Sum>i = 0..<length xs. if P (xs ! i) then f (xs ! i) else 0)"
    by (simp add: sum_list_sum_nth)
  also have "\<dots> = sum (\<lambda>i. f (xs ! i)) {i \<in> {0..<length xs}. P (xs ! i)}"
    by (rule sum.inter_filter [symmetric]) simp
  also have "{i \<in> {0..<length xs}. P (xs ! i)} = {i. i < length xs \<and> P (xs ! i)}"
    by auto
  finally show ?thesis .
qed

lemma filter_includes_restrict:
  "filter (\<lambda>t. includes_js (filter (\<lambda>c. c \<in> f ` set T) C) (f t)) T
   = filter (\<lambda>t. includes_js C (f t)) T"
  by (rule filter_cong) (auto simp: includes_iff)


section \<open>Facts about dates and the schedule loop\<close>


lemma getDay_next: "getDay tz (d + msPerDay) = (getDay tz d + 1) mod 7"
proof -
  have "Day (LocalTime tz (d + msPerDay)) = Day (LocalTime tz d) + 1"
    unfolding LocalTime_def Day_def msPerDay_def by simp
  then show ?thesis unfolding getDay_def WeekDay_def by (simp add: mod_simps add.commute add.left_commute)
qed

lemma getDay_range: "0 \<le> getDay tz d \<and> getDay tz d < 7"
  unfolding getDay_def WeekDay_def by simp

lemma getDay_next2:
  assumes "getDay tz (d + msPerDay) = 0"
  shows "getDay tz (d + 2 * msPerDay) = 1"
proof -
  have e: "d + 2 * msPerDay = (d + msPerDay) + msPerDay" by simp
  show ?thesis unfolding e getDay_next [of tz "d + msPerDay"] assms by simp
qed

lemma skip_eq:
  "skipToNextNonSunday tz d =
     (if getDay tz (d + msPerDay) = 0 then d + 2 * msPerDay else d + msPerDay)"
proof (cases "getDay tz (d + msPerDay) = 0")
  case True
  have e: "d + msPerDay + msPerDay = d + 2 * msPerDay" by simp
  from True have "skipToNextNonSunday tz d = skipToNextNonSunday tz (d + msPerDay)"
    by (simp add: skipToNextNonSunday.simps [of tz d] setDateNext_def Let_def)
  also have "\<dots> = d + 2 * msPerDay"
    using getDay_next2 [OF True]
    by (simp add: skipToNextNonSunday.simps [of tz "d + msPerDay"] setDateNext_def Let_def e)
  finally show ?thesis using True by simp
next
  case False
  then show ?thesis
    by (simp add: skipToNextNonSunday.simps [of tz d] setDateNext_def Let_def)
qed

lemma skip_gt: "d < skipToNextNonSunday tz d"
  by (simp add: skip_eq msPerDay_def)

lemma skip_not_sunday: "getDay tz (skipToNextNonSunday tz d) \<noteq> 0"
  using getDay_next2 [of tz d] by (simp add: skip_eq)

lemma scheduleLessons_other:
  "k \<notin> lid ` set ls \<Longrightarrow> fst (scheduleLessons tz s ls idx (sch, cur)) k = sch k"
  by (induction ls arbitrary: idx sch cur) (auto simp: Let_def)

lemma scheduleLessons_later:
  "distinct (map lid ls) \<Longrightarrow> i < length ls \<Longrightarrow> 0 < idx \<Longrightarrow>
   fst (scheduleLessons tz s ls idx (sch, cur)) (lid (ls ! i))
     = Some (scheduleEntry (ls ! i) ((skipToNextNonSunday tz ^^ (Suc i)) cur) False)"
proof (induction ls arbitrary: i idx sch cur)
  case Nil
  then show ?case by simp
next
  case (Cons l ls)
  show ?case
  proof (cases i)
    case 0
    from Cons.prems have "lid l \<notin> lid ` set ls" by auto
    with 0 Cons.prems(3) show ?thesis
      by (simp add: Let_def scheduleLessons_other)
  next
    case (Suc j)
    with Cons.prems have j: "j < length ls" and d: "distinct (map lid ls)" by auto
    from Suc Cons.prems(3) Cons.IH [OF d j, of "idx + 1"] show ?thesis
      by (simp add: Let_def funpow_swap1)
  qed
qed

lemma generateUnlockSchedule_on:
  assumes d: "distinct (map lid ls)" and i: "i < length ls"
  shows "fst (scheduleLessons tz s ls 0 (Map.empty, s)) (lid (ls ! i))
     = Some (scheduleEntry (ls ! i) ((skipToNextNonSunday tz ^^ i) s) (i = 0))"
proof (cases ls)
  case Nil
  with i show ?thesis by simp
next
  case (Cons l rest)
  show ?thesis
  proof (cases i)
    case 0
    from d Cons have "lid l \<notin> lid ` set rest" by auto
    with 0 Cons show ?thesis by (simp add: scheduleLessons_other)
  next
    case (Suc j)
    with i d Cons have j: "j < length rest" and dr: "distinct (map lid rest)" by auto
    from Suc Cons scheduleLessons_later [OF dr j, of 1 tz s _ s] show ?thesis
      by simp
  qed
qed

lemma scheduleLessons_dom:
  "dom (fst (scheduleLessons tz s ls idx (sch, cur))) = dom sch \<union> lid ` set ls"
  by (induction ls arbitrary: idx sch cur) (auto simp: Let_def)


section \<open>Facts about the lesson ids\<close>

lemma digit_inj: "a < 10 \<Longrightarrow> b < 10 \<Longrightarrow> (of_nat (48 + a) :: 16 word) = of_nat (48 + b) \<Longrightarrow> a = b"
  by (simp add: of_nat_eq_iff word_of_nat_eq_iff take_bit_nat_eq_self)

lemma of_nat16_inj:
  "a < 65536 \<Longrightarrow> b < 65536 \<Longrightarrow> (of_nat a :: 16 word) = of_nat b \<Longrightarrow> a = b"
  by (simp add: word_of_nat_eq_iff take_bit_nat_eq_self)

lemma digit_not_underscore: "a < 10 \<Longrightarrow> (of_nat (48 + a) :: 16 word) \<noteq> 0x5F"
  using of_nat16_inj [of "48 + a" 95] by auto

lemma decimal_not_empty: "decimal n \<noteq> []"
  by (subst decimal.simps) simp

lemma decimal_digits: "0x5F \<notin> set (decimal n)"
proof (induction n rule: decimal.induct)
  case (1 n)
  show ?case
  proof (cases "n < 10")
    case True
    then show ?thesis using digit_not_underscore [of n]
      by (subst decimal.simps) auto
  next
    case False
    have "n mod 10 < 10" by simp
    with False 1 show ?thesis using digit_not_underscore [of "n mod 10"]
      by (subst decimal.simps) auto
  qed
qed

lemma decimal_inj: "decimal n = decimal m \<Longrightarrow> n = m"
proof (induction n arbitrary: m rule: decimal.induct)
  case (1 n)
  show ?case
  proof (cases "n < 10")
    case n: True
    show ?thesis
    proof (cases "m < 10")
      case True
      with n "1.prems" show ?thesis
        using digit_inj [of n m] by (simp add: decimal.simps [of n] decimal.simps [of m])
    next
      case False
      with n "1.prems" decimal_not_empty [of "m div 10"] show ?thesis
        by (simp add: decimal.simps [of n] decimal.simps [of m])
    qed
  next
    case n: False
    show ?thesis
    proof (cases "m < 10")
      case True
      with n "1.prems" decimal_not_empty [of "n div 10"] show ?thesis
        by (simp add: decimal.simps [of n] decimal.simps [of m])
    next
      case False
      with n "1.prems" have e: "decimal (n div 10) = decimal (m div 10)"
        and d: "(of_nat (48 + n mod 10) :: 16 word) = of_nat (48 + m mod 10)"
        by (simp_all add: decimal.simps [of n] decimal.simps [of m])
      from "1.IH" [OF n e] have "n div 10 = m div 10" .
      moreover from d have "n mod 10 = m mod 10"
        using digit_inj [of "n mod 10" "m mod 10"] by simp
      ultimately show ?thesis by (metis div_mult_mod_eq)
    qed
  qed
qed

lemma lessonKey_inj: "lessonKey c l = lessonKey c' l' \<Longrightarrow> c = c' \<and> l = l'"
proof -
  assume "lessonKey c l = lessonKey c' l'"
  then have "decimal c @ 0x5F # decimal l = decimal c' @ 0x5F # decimal l'"
    by (simp add: lessonKey_def js_def)
  then have "decimal c = decimal c' \<and> decimal l = decimal l'"
    by (simp only: append_Cons_eq_iff [OF decimal_digits decimal_digits])
  then show ?thesis by (auto dest: decimal_inj)
qed

lemma distinct_concat_Pair:
  "distinct cs \<Longrightarrow> (\<And>c. distinct (f c)) \<Longrightarrow>
   distinct (concat (map (\<lambda>c. map (Pair c) (f c)) cs))"
  by (induction cs) (auto simp: distinct_map inj_on_def)

lemma distinct_enumeration: "distinct enumeration"
  unfolding enumeration_def
  by (rule distinct_concat_Pair [of "[1..<13]" "\<lambda>c. [1..<lessonsInChapter c + 1]"])
     (simp_all only: distinct_upt)


lemma fold_push:
  assumes "\<And>x a k. map T (fst (F x (a, k))) = map T a @ G x"
  shows "map T (fst (fold F xs st)) = map T (fst st) @ concat (map G xs)"
proof (induction xs arbitrary: st)
  case Nil
  show ?case by simp
next
  case (Cons x xs)
  obtain a k where st: "st = (a, k)" by (cases st)
  show ?case
    by (simp add: Cons.IH [of "F x st"]) (simp add: st assms)
qed

lemma decimal_digit: "n < 10 \<Longrightarrow> decimal n = [of_nat (48 + n)]"
  by (subst decimal.simps) simp

lemma generateLessonIds_triples:
  "map lessonTriple generateLessonIds = map (\<lambda>(c, l). (c, l, lessonKey c l)) enumeration"
proof -
  let ?push = "\<lambda>chapter ident. (\<lambda>lesson (lessons, lessonIndex).
                 (lessons @ [\<lparr>lid = ident lesson, chapterNumber = chapter,
                              lessonNumber = lesson, globalIndex = lessonIndex\<rparr>],
                  lessonIndex + (1::nat)))"
  have inner: "map lessonTriple (fst (fold (?push c ident) xs st))
      = map lessonTriple (fst st) @ map (\<lambda>l. (c, l, ident l)) xs" for c ident xs st
    using fold_push [of lessonTriple "?push c ident" "\<lambda>l. [(c, l, ident l)]" xs st]
    by (simp add: lessonTriple_def concat_map_singleton)
  let ?chapter = "\<lambda>chapter (lessons, lessonIndex).
       fold (?push chapter (\<lambda>lesson. js ''les_'' @ decimal chapter @ js ''_'' @ decimal lesson))
            [1..<(if chapter = 5 then 11 else 10) + 1] (lessons, lessonIndex)"
  have outer: "map lessonTriple (fst (fold ?chapter cs st))
      = map lessonTriple (fst st)
        @ concat (map (\<lambda>c. map (\<lambda>l. (c, l, lessonKey c l))
                            [1..<(if c = 5 then 11 else 10) + 1]) cs)" for cs st
    by (rule fold_push) (simp only: Let_def prod.case inner fst_conv lessonKey_def)
  have k: "js ''les_1_'' @ decimal i = lessonKey 1 i" for i
    by (simp add: lessonKey_def decimal_digit js_def)
  have first: "map lessonTriple generateLessonIds
      = map (\<lambda>l. (1, l, lessonKey 1 l)) [1..<10]
        @ concat (map (\<lambda>c. map (\<lambda>l. (c, l, lessonKey c l))
                            [1..<(if c = 5 then 11 else 10) + 1]) [2..<13])"
    unfolding generateLessonIds_def Let_def
    by (simp only: split_beta outer prod.collapse inner fst_conv list.map append_Nil k)
  have one: "[1..<13] = 1 # [2..<13]"
    by (simp add: upt_conv_Cons)
  have "map (\<lambda>(c, l). (c, l, lessonKey c l)) enumeration
      = concat (map (\<lambda>c. map (\<lambda>l. (c, l, lessonKey c l)) [1..<lessonsInChapter c + 1]) [1..<13])"
    unfolding enumeration_def by (simp only: map_concat map_map comp_def prod.case)
  also have "\<dots> = map (\<lambda>l. (1, l, lessonKey 1 l)) [1..<10]
        @ concat (map (\<lambda>c. map (\<lambda>l. (c, l, lessonKey c l))
                            [1..<(if c = 5 then 11 else 10) + 1]) [2..<13])"
  proof -
    have l1: "lessonsInChapter 1 + 1 = 10"
      by (simp add: lessonsInChapter_def)
    have rest: "map (\<lambda>c. map (\<lambda>l. (c, l, lessonKey c l)) [1..<lessonsInChapter c + 1]) [2..<13]
        = map (\<lambda>c. map (\<lambda>l. (c, l, lessonKey c l)) [1..<(if c = 5 then 11 else 10) + 1]) [2..<13]"
    proof (rule map_cong)
      fix c :: nat
      assume "c \<in> set [2..<13]"
      then have "c \<noteq> 1" by (simp only: set_upt atLeastLessThan_iff) arith
      then show "map (\<lambda>l. (c, l, lessonKey c l)) [1..<lessonsInChapter c + 1]
          = map (\<lambda>l. (c, l, lessonKey c l)) [1..<(if c = 5 then 11 else 10) + 1]"
        by (simp only: lessonsInChapter_def if_False)
    qed (rule refl)
    show ?thesis
      by (simp only: one list.map concat.simps l1 rest)
  qed
  finally show ?thesis using first by simp
qed

lemma generateLessonIds_ids:
  "map lid generateLessonIds = map (\<lambda>(c, l). lessonKey c l) enumeration"
proof -
  have "map lid generateLessonIds = map (snd \<circ> snd) (map lessonTriple generateLessonIds)"
    by (simp add: lessonTriple_def comp_def)
  also have "\<dots> = map (\<lambda>(c, l). lessonKey c l) enumeration"
    unfolding generateLessonIds_triples by (simp add: comp_def split_beta)
  finally show ?thesis .
qed

lemma distinct_lesson_ids: "distinct (map lid generateLessonIds)"
  unfolding generateLessonIds_ids
  by (auto simp: distinct_map distinct_enumeration inj_on_def dest: lessonKey_inj)

lemma length_enumeration: "length enumeration = 120"
  unfolding enumeration_def
  by (simp add: upt_conv_Cons lessonsInChapter_def)

lemma length_generateLessonIds: "length generateLessonIds = 120"
  using arg_cong [OF generateLessonIds_ids, of length] by (simp add: length_enumeration)

lemma enumeration_start: "enumeration ! 0 = (1, 1)" "enumeration ! 1 = (1, 2)" "enumeration ! 3 = (1, 4)"
  unfolding enumeration_def
  by (simp_all add: upt_conv_Cons lessonsInChapter_def)

lemma first_ids:
  "lid (generateLessonIds ! 0) = js ''les_1_1''"
  "lid (generateLessonIds ! 1) = js ''les_1_2''"
  "lid (generateLessonIds ! 3) = js ''les_1_4''"
proof -
  have n: "\<And>i. i < 120 \<Longrightarrow> lid (generateLessonIds ! i) = (\<lambda>(c, l). lessonKey c l) (enumeration ! i)"
  proof -
    fix i :: nat
    assume i: "i < 120"
    then have "lid (generateLessonIds ! i) = map lid generateLessonIds ! i"
      by (simp add: length_generateLessonIds)
    also have "\<dots> = (\<lambda>(c, l). lessonKey c l) (enumeration ! i)"
      unfolding generateLessonIds_ids using i by (simp add: length_enumeration)
    finally show "lid (generateLessonIds ! i) = (\<lambda>(c, l). lessonKey c l) (enumeration ! i)" .
  qed
  have "lid (generateLessonIds ! 0) = (\<lambda>(c, l). lessonKey c l) (enumeration ! 0)"
    by (rule n) simp
  then show "lid (generateLessonIds ! 0) = js ''les_1_1''"
    unfolding enumeration_start by (simp add: lessonKey_def decimal_digit js_def)
  have "lid (generateLessonIds ! 1) = (\<lambda>(c, l). lessonKey c l) (enumeration ! 1)"
    by (rule n) simp
  then show "lid (generateLessonIds ! 1) = js ''les_1_2''"
    unfolding enumeration_start by (simp add: lessonKey_def decimal_digit js_def)
  have "lid (generateLessonIds ! 3) = (\<lambda>(c, l). lessonKey c l) (enumeration ! 3)"
    by (rule n) simp
  then show "lid (generateLessonIds ! 3) = js ''les_1_4''"
    unfolding enumeration_start by (simp add: lessonKey_def decimal_digit js_def)
qed


section \<open>Facts about the unlock schedule\<close>

lemma schedule_nth:
  assumes "i < length generateLessonIds"
  shows "generateUnlockSchedule tz start (lid (generateLessonIds ! i))
     = Some (scheduleEntry (generateLessonIds ! i) ((skipToNextNonSunday tz ^^ i) start) (i = 0))"
  unfolding generateUnlockSchedule_def Let_def
  by (rule generateUnlockSchedule_on [OF distinct_lesson_ids assms])

lemma schedule_dom:
  "dom (generateUnlockSchedule tz start) = lid ` set generateLessonIds"
  unfolding generateUnlockSchedule_def Let_def by (simp add: scheduleLessons_dom)

lemma lesson_ids_form:
  "k \<in> lid ` set generateLessonIds \<Longrightarrow> \<exists>c l. k = lessonKey c l"
proof -
  assume "k \<in> lid ` set generateLessonIds"
  then have "k \<in> set (map lid generateLessonIds)" by simp
  then show ?thesis unfolding generateLessonIds_ids by auto
qed

lemma unlockDate_scheduleEntry [simp]: "unlockDate (scheduleEntry l d b) = d"
  by (simp add: scheduleEntry_def)

lemma setHoursZero_le:
  "setHoursZero tz a \<le> setHoursZero tz b \<longleftrightarrow> Day (LocalTime tz a) \<le> Day (LocalTime tz b)"
  by (simp add: setHoursZero_def msPerDay_def)

lemma isLessonUnlockedById_own:
  "unlockSchedule sys k = Some e \<Longrightarrow>
   isLessonUnlockedById tz sys k d = (setHoursZero tz (unlockDate e) \<le> setHoursZero tz d, [])"
  by (simp add: isLessonUnlockedById_def getProperty_def Let_def)

lemma unlock_schedule_order:
  assumes "Suc i < length generateLessonIds"
  shows "\<exists>e e'. generateUnlockSchedule tz start (lid (generateLessonIds ! i)) = Some e
          \<and> generateUnlockSchedule tz start (lid (generateLessonIds ! Suc i)) = Some e'
          \<and> unlockDate e < unlockDate e' \<and> getDay tz (unlockDate e') \<noteq> 0"
proof -
  from assms have i: "i < length generateLessonIds" by simp
  show ?thesis
    by (simp add: schedule_nth [OF i] schedule_nth [OF assms] skip_gt skip_not_sunday)
qed

lemma lessonKey_head: "hd (lessonKey c l) = 0x6C"
  by (simp add: lessonKey_def js_def)

lemma fail_open_unknown_ids:
  "lessonId \<notin> dom (unlockSchedule sys) \<Longrightarrow> lessonId \<notin> set objectPrototypeKeys \<Longrightarrow>
   isLessonUnlockedById tz sys lessonId d
     = (True, [js ''Lesson '' @ lessonId @ js '' not found in unlock schedule''])"
  by (auto simp: isLessonUnlockedById_def getProperty_def includes_iff domIff)

lemma singleton_entry:
  "i < 120 \<Longrightarrow> unlockSchedule (lessonUnlockSystem tz) (lid (generateLessonIds ! i))
     = Some (scheduleEntry (generateLessonIds ! i)
               ((skipToNextNonSunday tz ^^ i) (dateOnly 2025 7 24)) (i = 0))"
  using schedule_nth [of i tz "dateOnly 2025 7 24"]
  by (simp add: lessonUnlockSystem_def newLessonUnlockSystem_def length_generateLessonIds)

lemma start_value: "dateOnly 2025 7 24 = 1753315200000"
  by (simp add: dateOnly_def daysFromCivil_def msPerDay_def Let_def)

lemma skip_west:
  "skipToNextNonSunday (-300) 1753315200000 = 1753401600000"
  "skipToNextNonSunday (-300) 1753401600000 = 1753488000000"
  "skipToNextNonSunday (-300) 1753488000000 = 1753574400000"
  by (simp_all add: skip_eq getDay_def WeekDay_def Day_def LocalTime_def msPerDay_def)

lemma local_day_east:
  assumes "0 \<le> tz" "tz < 1440"
  shows "Day (LocalTime tz (daysFromCivil y m d * msPerDay + k * msPerDay)) = daysFromCivil y m d + k"
proof -
  have "0 \<le> tz * 60000" "tz * 60000 < 86400000" using assms by simp_all
  then have z: "(tz * 60000) div 86400000 = 0" by simp
  have "(tz * 60000 + (daysFromCivil y m d + k) * 86400000) div 86400000
      = (tz * 60000) div 86400000 + (daysFromCivil y m d + k)"
    by simp
  then show ?thesis
    unfolding Day_def LocalTime_def msPerDay_def by (simp add: z algebra_simps)
qed

lemma second_id: "lid (generateLessonIds ! Suc 0) = js ''les_1_2''"
  using first_ids(2) by simp

lemma first_lessons_east_of_utc:
  assumes "0 \<le> tz" "tz < 1440"
  shows "map_option (\<lambda>e. Day (LocalTime tz (unlockDate e)))
           (unlockSchedule (lessonUnlockSystem tz) (js ''les_1_1'')) = Some (daysFromCivil 2025 7 24)
       \<and> map_option (\<lambda>e. Day (LocalTime tz (unlockDate e)))
           (unlockSchedule (lessonUnlockSystem tz) (js ''les_1_2'')) = Some (daysFromCivil 2025 7 25)"
proof -
  have d0: "Day (LocalTime tz (dateOnly 2025 7 24)) = daysFromCivil 2025 7 24"
    using local_day_east [OF assms, of 2025 7 24 0] by (simp add: dateOnly_def)
  have d1: "Day (LocalTime tz (dateOnly 2025 7 24 + msPerDay)) = daysFromCivil 2025 7 24 + 1"
    using local_day_east [OF assms, of 2025 7 24 1] by (simp add: dateOnly_def)
  have "getDay tz (dateOnly 2025 7 24 + msPerDay) \<noteq> 0"
    unfolding getDay_def WeekDay_def d1 by (simp add: daysFromCivil_def Let_def)
  then have s: "skipToNextNonSunday tz (dateOnly 2025 7 24) = dateOnly 2025 7 24 + msPerDay"
    by (simp add: skip_eq)
  have n: "daysFromCivil 2025 7 24 + 1 = daysFromCivil 2025 7 25"
    by (simp add: daysFromCivil_def Let_def)
  show ?thesis
    using singleton_entry [of 0 tz] singleton_entry [of 1 tz]
    by (simp add: first_ids second_id s d0 d1 n)
qed

section \<open>Facts about the quiz organiser\<close>

lemma organizeQuizRow_correctIndex:
  "q_correctIndex (fst (organizeQuizRow random row st))
     = (let L = toUpperCase (trim (orEmpty (row_correctOption row)))
        in if L = js ''A'' then 0 else if L = js ''B'' then 1
           else if L = js ''C'' then 2 else if L = js ''D'' then 3 else 0)"
  by (simp add: organizeQuizRow_def Let_def indexOf_def js_def split: prod.splits)

lemma organizeQuizRows_correctIndex:
  "map q_correctIndex (fst (organizeQuizRows random quizRows st))
     = map (\<lambda>row. let L = toUpperCase (trim (orEmpty (row_correctOption row)))
                  in if L = js ''A'' then 0 else if L = js ''B'' then 1
                     else if L = js ''C'' then 2 else if L = js ''D'' then 3 else 0) quizRows"
proof (induction quizRows arbitrary: st)
  case Nil
  show ?case by simp
next
  case (Cons row quizRows)
  obtain q st1 where r: "organizeQuizRow random row st = (q, st1)"
    by (cases "organizeQuizRow random row st")
  obtain qs st2 where rs: "organizeQuizRows random quizRows st1 = (qs, st2)"
    by (cases "organizeQuizRows random quizRows st1")
  have q: "q_correctIndex q
      = (let L = toUpperCase (trim (orEmpty (row_correctOption row)))
         in if L = js ''A'' then 0 else if L = js ''B'' then 1
            else if L = js ''C'' then 2 else if L = js ''D'' then 3 else 0)"
    using organizeQuizRow_correctIndex [of random row st] by (simp only: r fst_conv)
  have qs: "map q_correctIndex qs
      = map (\<lambda>row. let L = toUpperCase (trim (orEmpty (row_correctOption row)))
                   in if L = js ''A'' then 0 else if L = js ''B'' then 1
                      else if L = js ''C'' then 2 else if L = js ''D'' then 3 else 0) quizRows"
    using Cons.IH [of st1] by (simp only: rs fst_conv)
  have "fst (organizeQuizRows random (row # quizRows) st) = q # qs"
    by (simp add: r rs)
  then show ?case
    by (simp only: list.map q qs)
qed

section \<open>Facts about lesson completion\<close>

lemma insertAll_set: "set (insertAll seen xs) = set seen \<union> set xs"
  by (induction xs arbitrary: seen) (auto simp: includes_iff)

lemma newSet_set: "set (newSet xs) = set xs"
  by (simp add: newSet_def insertAll_set)

lemma length_filter_all: "length (filter P xs) = length xs \<longleftrightarrow> (\<forall>x\<in>set xs. P x)"
proof (induction xs)
  case Nil
  show ?case by simp
next
  case (Cons x xs)
  have "length (filter P xs) \<noteq> Suc (length xs)"
    using length_filter_le [of P xs] by arith
  with Cons show ?case by auto
qed

lemma isLessonFullyComplete_mixed:
  assumes l: "parseIds (localStorage b (completedTasksKey courseId)) = Some localTasks"
    and s: "getCompletedTasks courseId b = Some sessionTasks"
    and c: "getCompletedLessonsList courseId b = Some completedLessons"
    and t: "lesson_tasks lesson \<noteq> []"
    and h: "hasLearningContent lessonHasLearning (lesson_id lesson)
              \<or> isLessonLearningDone (lesson_id lesson) b
              \<or> lesson_id lesson \<in> set completedLessons"
  shows "isLessonFullyComplete courseId lessonHasLearning lesson b
     = Some ((\<forall>task \<in> set (lesson_tasks lesson).
                 task_id task \<in> set localTasks \<union> set sessionTasks)
             \<or> isLessonLearningDone (lesson_id lesson) b
             \<or> lesson_id lesson \<in> set completedLessons)"
proof -
  let ?done = "filter (\<lambda>taskId. includes_js (map task_id (lesson_tasks lesson)) taskId)
                 (newSet (localTasks @ sessionTasks))"
  have g: "getLessonCompletedTasks courseId lesson b = Some ?done"
    by (simp add: getLessonCompletedTasks_def l s Let_def)
  have m: "task \<in> set (lesson_tasks lesson) \<Longrightarrow>
      includes_js ?done (task_id task) \<longleftrightarrow> task_id task \<in> set localTasks \<union> set sessionTasks"
    for task
    by (auto simp: includes_iff newSet_set)
  have n: "completedTasks (calculateProgress (lesson_tasks lesson) ?done) = length (lesson_tasks lesson)
      \<longleftrightarrow> (\<forall>task \<in> set (lesson_tasks lesson).
             task_id task \<in> set localTasks \<union> set sessionTasks)"
  proof -
    have "(\<forall>task \<in> set (lesson_tasks lesson). includes_js ?done (task_id task))
        \<longleftrightarrow> (\<forall>task \<in> set (lesson_tasks lesson).
               task_id task \<in> set localTasks \<union> set sessionTasks)"
      using m by blast
    then show ?thesis
      by (simp add: calculateProgress_def Let_def length_filter_all)
  qed
  show ?thesis
    unfolding isLessonFullyComplete_def g c
    using t h by (simp add: Let_def n includes_iff)
qed

lemma keys:
  "completedTasksKey (js ''c1'') = js ''course_c1_completed_tasks''"
  "completedLessonsKey (js ''c1'') = js ''course_c1_completed_lessons''"
  "learningDoneKey (js ''les_1_1'') = js ''lesson_les_1_1_learningDone''"
  by (simp_all add: completedTasksKey_def completedLessonsKey_def learningDoneKey_def js_def)

lemma key_ne:
  "js ''course_c1_completed_tasks'' \<noteq> js ''lesson_les_1_1_learningDone''"
  "js ''course_c1_completed_lessons'' \<noteq> js ''lesson_les_1_1_learningDone''"
  by (simp_all add: js_def)

lemma flagOnlyLesson_fields:
  "lesson_id flagOnlyLesson = js ''les_1_1''" "lesson_tasks flagOnlyLesson = [flagOnlyTask]"
  by (simp_all add: flagOnlyLesson_def)

section \<open>Facts about the parsers and task rows\<close>

lemma parse_short_csv:
  "parseCSV_csv (js ''a,b'' @ [0xA] @ js ''c'') = [[js ''a'', js ''b''], [js ''c'']]"
  by (simp add: parseCSV_csv_def stripBOM_def popEmptyRows_def js_def Let_def)

lemma parse_short_learning:
  "parseCSV_learning (js ''a,b'' @ [0xA] @ js ''c'' @ [0xA] @ js ''d,e,f'')
     = [[js ''a'', js ''b'', []], [js ''c'', [], []], [js ''d'', js ''e'', js ''f'']]"
  by (simp add: parseCSV_learning_def parseRows_learning_def stripBOM_def popEmptyRows_def js_def
        Let_def trim_def isWhiteSpace_def)

lemma parse_xp_csv:
  "parseCSV_csv (js ''name, xp'' @ [0xA] @ js ''t1,-5'' @ [0xA] @ js ''t2'')
     = [[js ''name'', js '' xp''], [js ''t1'', js ''-5''], [js ''t2'']]"
  by (simp add: parseCSV_csv_def stripBOM_def popEmptyRows_def js_def Let_def)

lemma parse_no_xp_csv:
  "parseCSV_csv (js ''name'' @ [0xA] @ js ''t1'') = [[js ''name''], [js ''t1'']]"
  by (simp add: parseCSV_csv_def stripBOM_def popEmptyRows_def js_def Let_def)

lemma bitlen_upper: "n < 2 ^ bitlen n"
proof (induction n rule: bitlen.induct)
  case (1 n)
  show ?case
  proof (cases "n = 0")
    case True
    then show ?thesis by (simp add: bitlen.simps)
  next
    case False
    from 1 [OF False] have "n div 2 < 2 ^ bitlen (n div 2)" .
    then have "n < 2 * 2 ^ bitlen (n div 2)" by linarith
    with False show ?thesis by (simp add: bitlen.simps [of n])
  qed
qed

lemma bitlen_lower: "n \<noteq> 0 \<Longrightarrow> 2 ^ (bitlen n - 1) \<le> n"
proof (induction n rule: bitlen.induct)
  case (1 n)
  have b: "bitlen n = Suc (bitlen (n div 2))"
    using "1.prems" by (simp add: bitlen.simps [of n])
  show ?case
  proof (cases "n div 2 = 0")
    case True
    with "1.prems" b show ?thesis by (simp add: bitlen.simps [of 0])
  next
    case False
    from "1.IH" [OF "1.prems" False] have h: "2 ^ (bitlen (n div 2) - 1) \<le> n div 2" .
    have "bitlen (n div 2) \<noteq> 0" using False by (simp add: bitlen.simps [of "n div 2"])
    then have "(2::nat) ^ bitlen (n div 2) = 2 * 2 ^ (bitlen (n div 2) - 1)"
      by (cases "bitlen (n div 2)") simp_all
    also have "\<dots> \<le> 2 * (n div 2)" using h by simp
    also have "\<dots> \<le> n" by simp
    finally show ?thesis by (simp add: b)
  qed
qed

lemma bitlen_le: "n < 2 ^ k \<Longrightarrow> bitlen n \<le> k"
proof (rule ccontr)
  assume n: "n < 2 ^ k" and b: "\<not> bitlen n \<le> k"
  from b have "n \<noteq> 0" by (cases "n = 0") (simp_all add: bitlen.simps [of 0])
  from b have "k \<le> bitlen n - 1" by simp
  then have "(2::nat) ^ k \<le> 2 ^ (bitlen n - 1)" by (rule power_increasing) simp
  also have "\<dots> \<le> n" by (rule bitlen_lower) fact
  finally show False using n by simp
qed

lemma bitlen_gt: "2 ^ k \<le> n \<Longrightarrow> k < bitlen n"
proof (rule ccontr)
  assume n: "2 ^ k \<le> n" and "\<not> k < bitlen n"
  then have "bitlen n \<le> k" by simp
  then have "(2::nat) ^ bitlen n \<le> 2 ^ k" by (rule power_increasing) simp
  also note n
  finally show False using bitlen_upper [of n] by simp
qed

lemma toDouble_exact: "\<bar>x\<bar> < 2 ^ 53 \<Longrightarrow> toDouble x = Finite x"
proof -
  assume "\<bar>x\<bar> < 2 ^ 53"
  then have "nat \<bar>x\<bar> < 2 ^ 53" by (simp add: nat_less_iff)
  then have "bitlen (nat \<bar>x\<bar>) \<le> 53" by (rule bitlen_le)
  then show ?thesis by (simp add: toDouble_def Let_def)
qed

lemma toDouble_overflow:
  assumes "int doubleLimit \<le> x"
  shows "toDouble x = PosInfinity"
proof -
  let ?n = "nat \<bar>x\<bar>"
  have x: "0 \<le> x" using assms by linarith
  have n: "doubleLimit \<le> ?n" using assms x by linarith
  have big: "1024 < bitlen ?n"
    using n unfolding doubleLimit_def by (rule bitlen_gt)
  define e where "e = bitlen ?n - 53"
  define q where "q = ?n div 2 ^ e"
  have ne: "bitlen ?n - 1 = 52 + e" using big by (simp add: e_def)
  have n0: "?n \<noteq> 0"
    using big by (cases "?n = 0") (simp_all add: bitlen.simps [of 0])
  have low: "2 ^ (52 + e) \<le> ?n"
    using bitlen_lower [OF n0] unfolding ne .
  have pos: "0 < (2::nat) ^ e" by simp
  have "(2::nat) ^ 52 * 2 ^ e \<le> ?n"
    using low by (simp only: power_add)
  then have q52: "2 ^ 52 \<le> q"
    unfolding q_def by (simp only: less_eq_div_iff_mult_less_eq [OF pos])
  have "1024 \<le> 52 + e" using big by (simp add: e_def)
  then have "doubleLimit \<le> 2 ^ (52 + e)"
    unfolding doubleLimit_def by (rule power_increasing) simp
  also have "\<dots> = 2 ^ 52 * 2 ^ e" by (rule power_add)
  also have "\<dots> \<le> q * 2 ^ e" using q52 by (rule mult_le_mono1)
  finally have v: "doubleLimit \<le> q * 2 ^ e" .
  then have v1: "doubleLimit \<le> (q + 1) * 2 ^ e"
    by (simp add: algebra_simps)
  from big have long: "\<not> bitlen ?n \<le> 53" by simp
  show ?thesis
    using long x v v1 by (simp add: toDouble_def Let_def e_def q_def)
qed

lemma toDouble_small: "toDouble 0 = Finite 0" "toDouble (- 5) = Finite (- 5)"
  by (simp_all add: toDouble_exact)

lemma parseInt_minus5: "parseInt (js ''-5'') = Finite (- 5)"
  by (simp add: parseInt_def js_def isWhiteSpace_def isRadixDigit_def digitValue_def
        digitsValue_def Let_def toDouble_small)

lemma parseInt_empty: "parseInt [] = NaN"
  by (simp add: parseInt_def Let_def)

lemma bitlen_54: "bitlen 9007199254740993 = 54"
  by (simp add: bitlen.simps)

lemma toDouble_rounds: "toDouble 9007199254740993 = Finite 9007199254740992"
  by (simp add: toDouble_def Let_def bitlen_54 doubleLimit_def)

lemma parseInt_rounds: "parseInt (js ''9007199254740993'') = Finite 9007199254740992"
  by (simp add: parseInt_def js_def isWhiteSpace_def isRadixDigit_def digitValue_def
        digitsValue_def Let_def toDouble_rounds)

lemma parseIntOrZero_not_NaN: "parseIntOrZero value \<noteq> NaN"
  by (simp add: parseIntOrZero_def Let_def)

lemma parseIntOrZero_NaN: "parseInt value = NaN \<Longrightarrow> parseIntOrZero value = Finite 0"
  by (simp add: parseIntOrZero_def Let_def)


lemma xp_not_proto:
  "js ''xp'' \<noteq> js ''__proto__''" "js ''instructions'' \<noteq> js ''xp''"
  "js ''xp'' \<noteq> js ''instructions''"
  by (simp_all add: js_def)

lemma fillTask_absent:
  "k \<notin> set headers \<Longrightarrow> fillTask headers row index task k = task k"
  by (induction headers arbitrary: index task) (auto simp: Let_def setProperty_def)

text \<open>The value stored under a header for a cell.\<close>

lemma fillTask_last:
  "i < length headers \<Longrightarrow> headers ! i \<noteq> js ''__proto__'' \<Longrightarrow>
   (\<forall>k. i < k \<and> k < length headers \<longrightarrow> headers ! k \<noteq> headers ! i) \<Longrightarrow>
   fillTask headers row index task (headers ! i)
     = Some (if headers ! i = js ''xp'' then Num (parseIntOrZero (cellAt row (index + i)))
             else Str (cellAt row (index + i)))"
proof (induction headers arbitrary: i index task)
  case Nil
  then show ?case by simp
next
  case (Cons header headers)
  let ?task = "if header = js ''xp''
               then setProperty task header (Num (parseIntOrZero (cellAt row index)))
               else setProperty task header (Str (cellAt row index))"
  show ?case
  proof (cases i)
    case 0
    have "header \<notin> set headers"
    proof
      assume "header \<in> set headers"
      then obtain k where "k < length headers" "headers ! k = header"
        by (auto simp: in_set_conv_nth)
      with Cons.prems(3) 0 show False by (auto dest: spec [of _ "Suc k"])
    qed
    then have "fillTask (header # headers) row index task header = ?task header"
      by (simp add: Let_def fillTask_absent)
    with 0 Cons.prems(2) show ?thesis
      by (simp add: setProperty_def)
  next
    case (Suc j)
    with Cons.prems have j: "j < length headers" and p: "headers ! j \<noteq> js ''__proto__''"
      by simp_all
    have l: "\<forall>k. j < k \<and> k < length headers \<longrightarrow> headers ! k \<noteq> headers ! j"
    proof (intro allI impI)
      fix k assume "j < k \<and> k < length headers"
      with Cons.prems(3) [rule_format, of "Suc k"] Suc show "headers ! k \<noteq> headers ! j"
        by simp
    qed
    from Cons.IH [OF j p l, of "index + 1" ?task] Suc show ?thesis
      by (simp add: Let_def)
  qed
qed

lemma last_occurrence:
  "h \<in> set xs \<Longrightarrow> \<exists>i<length xs. xs ! i = h \<and> (\<forall>k. i < k \<and> k < length xs \<longrightarrow> xs ! k \<noteq> h)"
proof (induction xs)
  case Nil
  then show ?case by simp
next
  case (Cons x xs)
  show ?case
  proof (cases "h \<in> set xs")
    case True
    from Cons.IH [OF True] obtain i where i: "i < length xs" "xs ! i = h"
      "\<forall>k. i < k \<and> k < length xs \<longrightarrow> xs ! k \<noteq> h" by blast
    have "\<forall>k. Suc i < k \<and> k < length (x # xs) \<longrightarrow> (x # xs) ! k \<noteq> h"
    proof (intro allI impI)
      fix k assume k: "Suc i < k \<and> k < length (x # xs)"
      then obtain k' where k': "k = Suc k'" by (cases k) auto
      with k i(3) show "(x # xs) ! k \<noteq> h" by simp
    qed
    with i(1,2) show ?thesis by (intro exI [of _ "Suc i"]) simp
  next
    case False
    with Cons.prems have x: "x = h" by simp
    have "\<forall>k. 0 < k \<and> k < length (x # xs) \<longrightarrow> (x # xs) ! k \<noteq> h"
    proof (intro allI impI)
      fix k assume k: "0 < k \<and> k < length (x # xs)"
      then obtain k' where k': "k = Suc k'" by (cases k) auto
      with k False show "(x # xs) ! k \<noteq> h" by (auto simp: in_set_conv_nth)
    qed
    with x show ?thesis by (intro exI [of _ 0]) simp
  qed
qed

lemma taskOfRow_header:
  assumes "i < length headers" "headers ! i \<noteq> js ''__proto__''"
    and "\<forall>k. i < k \<and> k < length headers \<longrightarrow> headers ! k \<noteq> headers ! i"
  shows "taskOfRow headers row (headers ! i)
     = Some (if headers ! i = js ''xp'' then Num (parseIntOrZero (cellAt row i))
             else Str (cellAt row i))"
proof -
  have f: "fillTask headers row 0 Map.empty (headers ! i)
      = Some (if headers ! i = js ''xp'' then Num (parseIntOrZero (cellAt row i))
              else Str (cellAt row i))"
    using fillTask_last [OF assms, of row 0 Map.empty] by simp
  show ?thesis
  proof (cases "headers ! i = js ''instructions''")
    case True
    with f show ?thesis by (simp add: taskOfRow_def Let_def)
  next
    case False
    with f show ?thesis by (simp add: taskOfRow_def Let_def)
  qed
qed

lemma taskOfRow_no_xp:
  "js ''xp'' \<notin> set headers \<Longrightarrow> taskOfRow headers row (js ''xp'') = None"
  by (simp add: taskOfRow_def Let_def fillTask_absent xp_not_proto)

lemma foldl_max_Max:
  "foldl (\<lambda>m r. max m (length r)) (m::nat) rs = Max (insert m (length ` set rs))"
proof (induction rs arbitrary: m)
  case Nil
  show ?case by simp
next
  case (Cons r rs)
  have "Max (insert (max m (length r)) (length ` set rs))
      = Max (insert m (insert (length r) (length ` set rs)))"
    by (cases "set rs = {}") (simp_all add: max.assoc)
  then show ?case by (simp add: Cons.IH)
qed

lemma maxCols_Max:
  "rs \<noteq> [] \<Longrightarrow> foldl (\<lambda>m r. max m (length r)) 0 rs = Max (length ` set rs)"
  by (simp add: foldl_max_Max)

section \<open>Progress counts only the given tasks\<close>

text \<open>
  C1. For every task sequence \<open>T\<close> and completed-id list \<open>C\<close>,
  \<open>calculateProgress\<close> reports as \<open>completedTasks\<close> the number of positions of
  \<open>T\<close> whose task id occurs in \<open>C\<close>, which is at most the length of \<open>T\<close>, and as
  \<open>earnedXP\<close> the sum of the xp at exactly those positions. Dropping from \<open>C\<close>
  every id that no task of \<open>T\<close> carries leaves the whole result unchanged, so
  such ids contribute nothing.
\<close>

theorem calculateProgress_counts_intersection:
  "completedTasks (calculateProgress T C)
     = card {i. i < length T \<and> task_id (T ! i) \<in> set C}
   \<and> completedTasks (calculateProgress T C) \<le> length T
   \<and> earnedXP (calculateProgress T C)
     = (\<Sum>i | i < length T \<and> task_id (T ! i) \<in> set C. task_xp (T ! i))
   \<and> calculateProgress T (filter (\<lambda>c. c \<in> task_id ` set T) C) = calculateProgress T C"
proof -
  have count: "completedTasks (calculateProgress T C)
      = card {i. i < length T \<and> task_id (T ! i) \<in> set C}"
    by (simp add: calculateProgress_def Let_def includes_iff length_filter_conv_card)
  have bound: "completedTasks (calculateProgress T C) \<le> length T"
    by (simp add: calculateProgress_def Let_def)
  have xp: "earnedXP (calculateProgress T C)
      = (\<Sum>i | i < length T \<and> task_id (T ! i) \<in> set C. task_xp (T ! i))"
    using sum_list_filter_index [of task_xp "\<lambda>t. task_id t \<in> set C" T]
    by (simp add: calculateProgress_def Let_def includes_iff foldl_add_sum_list)
  have same: "calculateProgress T (filter (\<lambda>c. c \<in> task_id ` set T) C) = calculateProgress T C"
    unfolding calculateProgress_def Let_def
    by (simp only: filter_includes_restrict [of task_id T C])
  from count bound xp same show ?thesis by blast
qed

section \<open>The completed-id lists hold no duplicates\<close>

text \<open>
  C10. Whenever the stored completed-task list of a course can be read as
  \<open>old\<close>, \<open>markTaskCompleted\<close> succeeds and leaves the list \<open>old\<close> itself when
  the task id is already in it, and \<open>old\<close> with the id appended once otherwise;
  a list without duplicates stays without duplicates, and a second call with
  the same course and task changes nothing. The same holds for
  \<open>markTopicWatched\<close> and the watched-topic list of a lesson.
\<close>

theorem mark_completed_no_duplicates:
  "(getCompletedTasks c b = Some old \<longrightarrow>
      (\<exists>b'. markTaskCompleted c t b = Some b'
         \<and> getCompletedTasks c b' = Some (if t \<in> set old then old else old @ [t])
         \<and> (distinct old \<longrightarrow> distinct (if t \<in> set old then old else old @ [t]))
         \<and> markTaskCompleted c t b' = Some b'))
   \<and> (getWatchedTopics l b = Some old \<longrightarrow>
      (\<exists>b'. markTopicWatched l t b = Some b'
         \<and> getWatchedTopics l b' = Some (if t \<in> set old then old else old @ [t])
         \<and> (distinct old \<longrightarrow> distinct (if t \<in> set old then old else old @ [t]))
         \<and> markTopicWatched l t b' = Some b'))"
proof (intro conjI impI)
  assume r: "getCompletedTasks c b = Some old"
  show "\<exists>b'. markTaskCompleted c t b = Some b'
         \<and> getCompletedTasks c b' = Some (if t \<in> set old then old else old @ [t])
         \<and> (distinct old \<longrightarrow> distinct (if t \<in> set old then old else old @ [t]))
         \<and> markTaskCompleted c t b' = Some b'"
  proof (cases "t \<in> set old")
    case True
    with r show ?thesis
      by (simp add: markTaskCompleted_def getCompletedTasks_def Let_def includes_iff)
  next
    case False
    with r show ?thesis
      by (simp add: markTaskCompleted_def getCompletedTasks_def Let_def includes_iff)
  qed
next
  assume r: "getWatchedTopics l b = Some old"
  show "\<exists>b'. markTopicWatched l t b = Some b'
         \<and> getWatchedTopics l b' = Some (if t \<in> set old then old else old @ [t])
         \<and> (distinct old \<longrightarrow> distinct (if t \<in> set old then old else old @ [t]))
         \<and> markTopicWatched l t b' = Some b'"
  proof (cases "t \<in> set old")
    case True
    with r show ?thesis
      by (simp add: markTopicWatched_def getWatchedTopics_def Let_def includes_iff)
  next
    case False
    with r show ?thesis
      by (simp add: markTopicWatched_def getWatchedTopics_def Let_def includes_iff)
  qed
qed

theorem mark_completed_no_duplicates_witness:
  "getCompletedTasks (js ''c1'') \<lparr>localStorage = Map.empty, sessionStorage = Map.empty\<rparr> = Some []
   \<and> getWatchedTopics (js ''les_1_1'') \<lparr>localStorage = Map.empty, sessionStorage = Map.empty\<rparr> = Some []
   \<and> distinct ([] :: jsstring list)
   \<and> (\<exists>b'. markTaskCompleted (js ''c1'') (js ''t1'')
                \<lparr>localStorage = Map.empty, sessionStorage = Map.empty\<rparr> = Some b'
         \<and> getCompletedTasks (js ''c1'') b' = Some [js ''t1'']
         \<and> markTaskCompleted (js ''c1'') (js ''t1'') b' = Some b')
   \<and> (\<exists>b'. markTopicWatched (js ''les_1_1'') (js ''t1'')
                \<lparr>localStorage = Map.empty, sessionStorage = Map.empty\<rparr> = Some b'
         \<and> getWatchedTopics (js ''les_1_1'') b' = Some [js ''t1'']
         \<and> markTopicWatched (js ''les_1_1'') (js ''t1'') b' = Some b')"
  using mark_completed_no_duplicates
          [of "js ''c1''" "\<lparr>localStorage = Map.empty, sessionStorage = Map.empty\<rparr>" "[]"
              "js ''t1''" "js ''les_1_1''"]
  by (simp add: getCompletedTasks_def getWatchedTopics_def Let_def)

section \<open>A chapter is unlocked when one of its lessons is\<close>

text \<open>
  C9. For every chapter number, lesson sequence and reference date,
  \<open>isChapterUnlocked\<close> is true exactly when some lesson of the sequence is
  unlocked at that date; it is false for the empty sequence, and the chapter
  number does not change the outcome.
\<close>

theorem isChapterUnlocked_iff_some_lesson:
  "(fst (isChapterUnlocked tz sys n lessons d)
      \<longleftrightarrow> (\<exists>lesson. lesson \<in> set lessons \<and> fst (isLessonUnlockedById tz sys (lesson_id lesson) d)))
   \<and> \<not> fst (isChapterUnlocked tz sys n [] d)
   \<and> isChapterUnlocked tz sys n lessons d = isChapterUnlocked tz sys n' lessons d"
proof -
  have a: "fst (isChapterUnlocked tz sys n lessons d)
      \<longleftrightarrow> (\<exists>lesson. lesson \<in> set lessons \<and> fst (isLessonUnlockedById tz sys (lesson_id lesson) d))"
    by (induction lessons) (auto simp: Let_def split: prod.splits)
  have b: "isChapterUnlocked tz sys n lessons d = isChapterUnlocked tz sys n' lessons d"
    by (induction lessons) (auto simp: Let_def split: prod.splits)
  from a b show ?thesis by simp
qed


section \<open>Unlock checks compare local calendar days\<close>

text \<open>
  C4. For every lesson id that is a key of the generated schedule and every
  reference date, \<open>isLessonUnlocked\<close> is true exactly when the date, cut back
  to local midnight, is on or after the lesson's unlock date cut back to local
  midnight, that is, when the local day of the date is not before the local day
  of the unlock date. The first lesson is unlocked on the course start date.
\<close>

theorem isLessonUnlocked_day_granularity:
  assumes "unlockSchedule (lessonUnlockSystem tz) lessonId = Some e"
  shows "(fst (isLessonUnlocked tz lessonId date)
            \<longleftrightarrow> setHoursZero tz (unlockDate e) \<le> setHoursZero tz date)
       \<and> (fst (isLessonUnlocked tz lessonId date)
            \<longleftrightarrow> Day (LocalTime tz (unlockDate e)) \<le> Day (LocalTime tz date))
       \<and> fst (isLessonUnlocked tz (lid (generateLessonIds ! 0))
                 (courseStartDate (lessonUnlockSystem tz)))"
proof -
  have r: "isLessonUnlocked tz lessonId date
      = (setHoursZero tz (unlockDate e) \<le> setHoursZero tz date, [])"
    unfolding isLessonUnlocked_def by (rule isLessonUnlockedById_own [OF assms])
  have first: "unlockSchedule (lessonUnlockSystem tz) (lid (generateLessonIds ! 0))
      = Some (scheduleEntry (generateLessonIds ! 0) (dateOnly 2025 7 24) True)"
    using singleton_entry [of 0 tz] by simp
  have f: "fst (isLessonUnlocked tz (lid (generateLessonIds ! 0))
                 (courseStartDate (lessonUnlockSystem tz)))"
    unfolding isLessonUnlocked_def isLessonUnlockedById_own [OF first]
    by (simp add: lessonUnlockSystem_def newLessonUnlockSystem_def)
  show ?thesis
    using f by (simp add: r setHoursZero_le)
qed

theorem isLessonUnlocked_day_granularity_witness:
  "unlockSchedule (lessonUnlockSystem 330) (js ''les_1_2'')
     = Some (scheduleEntry (generateLessonIds ! 1) (dateOnly 2025 7 25) False)
   \<and> fst (isLessonUnlocked 330 (js ''les_1_2'') (dateOnly 2025 7 24 + 20 * 3600000))
   \<and> \<not> fst (isLessonUnlocked 330 (js ''les_1_2'') (dateOnly 2025 7 24 + 10 * 3600000))"
proof -
  have s: "skipToNextNonSunday 330 (dateOnly 2025 7 24) = dateOnly 2025 7 25"
    by (simp add: skip_eq getDay_def WeekDay_def Day_def LocalTime_def msPerDay_def
          dateOnly_def daysFromCivil_def Let_def)
  have e: "unlockSchedule (lessonUnlockSystem 330) (js ''les_1_2'')
      = Some (scheduleEntry (generateLessonIds ! 1) (dateOnly 2025 7 25) False)"
    using singleton_entry [of 1 330] by (simp add: second_id s)
  have late: "fst (isLessonUnlocked 330 (js ''les_1_2'') (dateOnly 2025 7 24 + 20 * 3600000))"
    using isLessonUnlocked_day_granularity [OF e, of "dateOnly 2025 7 24 + 20 * 3600000"]
    by (simp add: setHoursZero_def Day_def LocalTime_def msPerDay_def dateOnly_def
          daysFromCivil_def Let_def)
  have early: "\<not> fst (isLessonUnlocked 330 (js ''les_1_2'') (dateOnly 2025 7 24 + 10 * 3600000))"
    using isLessonUnlocked_day_granularity [OF e, of "dateOnly 2025 7 24 + 10 * 3600000"]
    by (simp add: setHoursZero_def Day_def LocalTime_def msPerDay_def dateOnly_def
          daysFromCivil_def Let_def)
  from e late early show ?thesis by simp
qed

section \<open>Ids outside the schedule\<close>

text \<open>
  C5. The claim is that every lesson id that is not a key of the generated
  schedule is reported unlocked, with a warning. The id \<open>constructor\<close> is not
  a key of the schedule, yet the lookup \<open>this.unlockSchedule[lessonId]\<close> finds
  the member inherited from \<open>Object.prototype\<close>: the lesson is reported locked
  at every date and nothing is logged. (\<open>fail_open_unknown_ids\<close> above shows
  the fallback for every id that is neither a key nor an inherited member.)
\<close>

theorem isLessonUnlocked_inherited_key_locked:
  "js ''constructor'' \<notin> dom (unlockSchedule (lessonUnlockSystem tz))
   \<and> isLessonUnlocked tz (js ''constructor'') date = (False, [])"
proof -
  have "js ''constructor'' \<notin> lid ` set generateLessonIds"
  proof
    assume "js ''constructor'' \<in> lid ` set generateLessonIds"
    then obtain c l where "js ''constructor'' = lessonKey c l"
      using lesson_ids_form by blast
    then have "hd (js ''constructor'') = hd (lessonKey c l)" by simp
    then show False unfolding lessonKey_head by (simp add: js_def)
  qed
  then have n: "js ''constructor'' \<notin> dom (unlockSchedule (lessonUnlockSystem tz))"
    by (simp add: lessonUnlockSystem_def newLessonUnlockSystem_def schedule_dom)
  then have "unlockSchedule (lessonUnlockSystem tz) (js ''constructor'') = None"
    by (simp add: domIff)
  moreover have "includes_js objectPrototypeKeys (js ''constructor'')"
    by (simp add: objectPrototypeKeys_def js_def)
  ultimately have "isLessonUnlocked tz (js ''constructor'') date = (False, [])"
    by (simp add: isLessonUnlocked_def isLessonUnlockedById_def getProperty_def)
  with n show ?thesis by simp
qed


section \<open>The schedule in a zone west of UTC\<close>

text \<open>
  C2. The claim is that the lessons unlock on strictly increasing dates, none
  but the first on a Sunday, and that with course start date 2025-07-24 lesson
  \<open>les_1_1\<close> unlocks on 2025-07-24 and \<open>les_1_2\<close> on 2025-07-25. The dates
  do increase and never fall on a local Sunday (\<open>unlock_schedule_order\<close>), and
  in a zone at or east of UTC the first two lessons unlock on 24 and 25 July
  (\<open>first_lessons_east_of_utc\<close>). Five hours west of UTC the stored date of
  \<open>les_1_1\<close>, midnight UTC of 24 July, lies on the local day 23 July, and the
  lesson is already unlocked at 14:00 UTC on 23 July; the stored date of
  \<open>les_1_4\<close> is midnight UTC of 27 July 2025, which is a Sunday in UTC.
\<close>

theorem unlock_schedule_west_of_utc:
  "map_option unlockDate (unlockSchedule (lessonUnlockSystem (-300)) (js ''les_1_1''))
     = Some (dateOnly 2025 7 24)
   \<and> Day (LocalTime (-300) (dateOnly 2025 7 24)) = daysFromCivil 2025 7 23
   \<and> fst (isLessonUnlocked (-300) (js ''les_1_1'') (dateOnly 2025 7 23 + 14 * 3600000))
   \<and> map_option unlockDate (unlockSchedule (lessonUnlockSystem (-300)) (js ''les_1_4''))
     = Some (dateOnly 2025 7 27)
   \<and> WeekDay (dateOnly 2025 7 27) = 0"
proof -
  have e1: "unlockSchedule (lessonUnlockSystem (-300)) (js ''les_1_1'')
      = Some (scheduleEntry (generateLessonIds ! 0) (dateOnly 2025 7 24) True)"
    using singleton_entry [of 0 "-300"] by (simp add: first_ids)
  have e4: "unlockSchedule (lessonUnlockSystem (-300)) (js ''les_1_4'')
      = Some (scheduleEntry (generateLessonIds ! 3) (dateOnly 2025 7 27) False)"
  proof -
    have p: "(skipToNextNonSunday (-300) ^^ 3) (dateOnly 2025 7 24) = dateOnly 2025 7 27"
      by (simp add: numeral_3_eq_3 start_value skip_west)
         (simp add: dateOnly_def daysFromCivil_def msPerDay_def Let_def)
    show ?thesis
      using singleton_entry [of 3 "-300"] by (simp add: first_ids p)
  qed
  have a: "Day (LocalTime (-300) (dateOnly 2025 7 24)) = daysFromCivil 2025 7 23"
    by (simp add: dateOnly_def daysFromCivil_def msPerDay_def Let_def Day_def LocalTime_def)
  have b: "fst (isLessonUnlocked (-300) (js ''les_1_1'') (dateOnly 2025 7 23 + 14 * 3600000))"
    unfolding isLessonUnlocked_def isLessonUnlockedById_own [OF e1]
    by (simp add: setHoursZero_def dateOnly_def daysFromCivil_def msPerDay_def Let_def Day_def LocalTime_def)
  have c: "WeekDay (dateOnly 2025 7 27) = 0"
    by (simp add: dateOnly_def daysFromCivil_def msPerDay_def Let_def Day_def WeekDay_def)
  from e1 e4 a b c show ?thesis by simp
qed


section \<open>Quiz answers default to the first option\<close>

text \<open>
  C8. For every list of quiz rows, the question built from a row has
  \<open>correctIndex\<close> 0, 1, 2 or 3 when the row's \<open>correctOption\<close>, trimmed and
  upper-cased, is the letter \<open>A\<close>, \<open>B\<close>, \<open>C\<close> or \<open>D\<close>, and 0 for every other
  value, a missing one included.
\<close>

theorem organizeQuiz_correctIndex:
  "map q_correctIndex (fst (organizeQuiz random quizRows))
     = map (\<lambda>row. let L = toUpperCase (trim (orEmpty (row_correctOption row)))
                  in if L = js ''A'' then 0 else if L = js ''B'' then 1
                     else if L = js ''C'' then 2 else if L = js ''D'' then 3 else 0) quizRows"
proof -
  obtain qs st where r:
    "organizeQuizRows random quizRows \<lparr>seenIds = [], duplicates = [], randomCalls = 0\<rparr> = (qs, st)"
    by (cases "organizeQuizRows random quizRows \<lparr>seenIds = [], duplicates = [], randomCalls = 0\<rparr>")
  have "fst (organizeQuiz random quizRows) = qs"
    unfolding organizeQuiz_def r by (simp only: Let_def prod.case fst_conv)
  moreover have "qs = fst (organizeQuizRows random quizRows
                              \<lparr>seenIds = [], duplicates = [], randomCalls = 0\<rparr>)"
    by (simp only: r fst_conv)
  ultimately show ?thesis
    by (simp only: organizeQuizRows_correctIndex)
qed


section \<open>Mixed lessons: the lesson card and the chapter count disagree\<close>

text \<open>
  C3. The claim is that a mixed lesson is complete exactly when all its tasks are
  completed or learning is done, where learning is done when the lesson id is
  in the completed-lesson list or the learning-done flag is set. The value
  \<open>isLessonFullyComplete\<close> of the lesson card satisfies this
  (\<open>isLessonFullyComplete_mixed\<close> above). \<open>computeLessonLevelCompletion\<close>
  takes \<open>learningComplete\<close> from the completed-lesson list alone: for the
  lesson below, with no task completed and only the flag set, the card reports
  the lesson complete and the chapter count reports 0 of 1 lessons complete.
\<close>

theorem mixed_lesson_flag_only:
  "isLessonFullyComplete (js ''c1'') [js ''les_1_1'' \<mapsto> True] flagOnlyLesson flagOnlyBrowser
     = Some True
   \<and> computeLessonLevelCompletion (js ''c1'') [js ''les_1_1'' \<mapsto> True]
       (Some \<lparr>chapter_id = js ''ch1'', chapter_name = js ''One'', chapter_courseId = js ''c1'',
               chapter_lessons = [flagOnlyLesson]\<rparr>) flagOnlyBrowser
     = Some \<lparr>completedLessonCount = 0, totalLessonCount = 1, percentage = 0\<rparr>"
proof -
  have ld: "isLessonLearningDone (js ''les_1_1'') flagOnlyBrowser"
    by (simp add: isLessonLearningDone_def flagOnlyBrowser_def keys)
  have cl: "getCompletedLessonsList (js ''c1'') flagOnlyBrowser = Some []"
    by (simp add: getCompletedLessonsList_def flagOnlyBrowser_def keys key_ne)
  have ct: "getLessonCompletedTasks (js ''c1'') flagOnlyLesson flagOnlyBrowser = Some []"
    by (simp add: getLessonCompletedTasks_def getCompletedTasks_def flagOnlyBrowser_def keys key_ne
          newSet_def Let_def flagOnlyLesson_fields)
  have hl: "hasLearningContent [js ''les_1_1'' \<mapsto> True] (js ''les_1_1'')"
    by (simp add: hasLearningContent_def getProperty_def)
  have a: "isLessonFullyComplete (js ''c1'') [js ''les_1_1'' \<mapsto> True] flagOnlyLesson flagOnlyBrowser
      = Some True"
    by (simp add: isLessonFullyComplete_def ct cl Let_def flagOnlyLesson_fields ld hl)
  have b: "lessonCountsAsComplete (js ''c1'') [js ''les_1_1'' \<mapsto> True] [] flagOnlyLesson flagOnlyBrowser
      = Some False"
    by (simp add: lessonCountsAsComplete_def ct cl Let_def flagOnlyLesson_fields ld hl)
  have c: "computeLessonLevelCompletion (js ''c1'') [js ''les_1_1'' \<mapsto> True]
       (Some \<lparr>chapter_id = js ''ch1'', chapter_name = js ''One'', chapter_courseId = js ''c1'',
               chapter_lessons = [flagOnlyLesson]\<rparr>) flagOnlyBrowser
     = Some \<lparr>completedLessonCount = 0, totalLessonCount = 1, percentage = 0\<rparr>"
    by (simp add: computeLessonLevelCompletion_def cl newSet_def b Let_def)
  from a c show ?thesis by simp
qed


section \<open>The xp of a task row\<close>

text \<open>
  C6, as stated: every task row has a non-negative integer \<open>xp\<close>. It fails:
  the cell \<open>-5\<close> gives the xp \<open>-5\<close>, and a file with no \<open>xp\<close> column gives
  task rows with no \<open>xp\<close> at all.
\<close>

theorem parseTaskRows_xp_counterexample:
  "(parseTaskRows (parseCSV_csv (js ''xp'' @ [0xA] @ js ''-5'')) ! 0) (js ''xp'')
     = Some (Num (Finite (- 5)))
   \<and> (parseTaskRows (parseCSV_csv (js ''name'' @ [0xA] @ js ''t1'')) ! 0) (js ''xp'') = None"
proof -
  have a: "parseCSV_csv (js ''xp'' @ [0xA] @ js ''-5'') = [[js ''xp''], [js ''-5'']]"
    by (simp add: parseCSV_csv_def stripBOM_def popEmptyRows_def js_def Let_def)
  have b: "parseCSV_csv (js ''name'' @ [0xA] @ js ''t1'') = [[js ''name''], [js ''t1'']]"
    by (rule parse_no_xp_csv)
  have t: "trim (js ''xp'') = js ''xp''" "trim (js ''name'') = js ''name''"
    by (simp_all add: trim_def isWhiteSpace_def js_def)
  have n: "js ''name'' \<noteq> js ''xp''" "js ''xp'' \<noteq> js ''name''"
    "js ''name'' \<noteq> js ''__proto__''"
    by (simp_all add: js_def)
  have five: "parseIntOrZero (js ''-5'') = Finite (- 5)"
    by (simp add: parseIntOrZero_def Let_def parseInt_minus5)
  show ?thesis
    unfolding a b
    by (simp add: parseTaskRows_def taskOfRow_def Let_def t n xp_not_proto setProperty_def
          cellAt_def five)
qed

text \<open>
  C6, amended. For every raw CSV input and every task row built from it: when
  the header row has a column named \<open>xp\<close> after trimming, the row's \<open>xp\<close> is
  the number \<open>parseInt(cell) || 0\<close> for the row's cell in the last such column,
  a missing cell being the empty string. That number is never \<open>NaN\<close> and is 0
  when \<open>parseInt\<close> gives \<open>NaN\<close>; it may be negative, and it is a double: the
  integer read when that has at most 53 binary digits (\<open>toDouble_exact\<close>), a
  rounded value beyond (\<open>parseInt_rounds\<close>), an infinity from \<open>2^1024\<close> on
  (\<open>toDouble_overflow\<close>). When no column is named \<open>xp\<close>, the row has no
  \<open>xp\<close>.
\<close>

theorem parseTaskRows_xp_number:
  assumes "parseCSV_csv csvText = first # body" and "j < length body"
  shows "(js ''xp'' \<in> set (map trim first) \<longrightarrow>
            (\<exists>index<length first.
               trim (first ! index) = js ''xp''
               \<and> (\<forall>k. index < k \<and> k < length first \<longrightarrow> trim (first ! k) \<noteq> js ''xp'')
               \<and> (let value = (if index < length (body ! j) then body ! j ! index else [])
                  in (parseTaskRows (parseCSV_csv csvText) ! j) (js ''xp'')
                       = Some (Num (parseIntOrZero value))
                     \<and> parseIntOrZero value \<noteq> NaN
                     \<and> (parseInt value = NaN \<longrightarrow>
                          (parseTaskRows (parseCSV_csv csvText) ! j) (js ''xp'')
                            = Some (Num (Finite 0))))))
       \<and> (js ''xp'' \<notin> set (map trim first) \<longrightarrow>
            (parseTaskRows (parseCSV_csv csvText) ! j) (js ''xp'') = None)"
proof (intro conjI impI)
  have row: "parseTaskRows (parseCSV_csv csvText) ! j = taskOfRow (map trim first) (body ! j)"
    using assms(2) by (simp add: assms(1) parseTaskRows_def Let_def)
  {
    assume "js ''xp'' \<in> set (map trim first)"
    from last_occurrence [OF this]
    obtain i where i: "i < length (map trim first)" "map trim first ! i = js ''xp''"
      "\<forall>k. i < k \<and> k < length (map trim first) \<longrightarrow> map trim first ! k \<noteq> js ''xp''"
      by blast
    have p: "map trim first ! i \<noteq> js ''__proto__''"
      using i(2) xp_not_proto(1) by simp
    have l: "\<forall>k. i < k \<and> k < length (map trim first) \<longrightarrow> map trim first ! k \<noteq> map trim first ! i"
      using i(2,3) by simp
    from taskOfRow_header [OF i(1) p l, of "body ! j"] i(2)
    have v: "(parseTaskRows (parseCSV_csv csvText) ! j) (js ''xp'')
        = Some (Num (parseIntOrZero (cellAt (body ! j) i)))"
      by (simp add: row)
    have last: "\<forall>k. i < k \<and> k < length first \<longrightarrow> trim (first ! k) \<noteq> js ''xp''"
      using i(3) by simp
    have "i < length first" "trim (first ! i) = js ''xp''"
      using i(1,2) by simp_all
    with v last
    show "\<exists>index<length first.
               trim (first ! index) = js ''xp''
               \<and> (\<forall>k. index < k \<and> k < length first \<longrightarrow> trim (first ! k) \<noteq> js ''xp'')
               \<and> (let value = (if index < length (body ! j) then body ! j ! index else [])
                  in (parseTaskRows (parseCSV_csv csvText) ! j) (js ''xp'')
                       = Some (Num (parseIntOrZero value))
                     \<and> parseIntOrZero value \<noteq> NaN
                     \<and> (parseInt value = NaN \<longrightarrow>
                          (parseTaskRows (parseCSV_csv csvText) ! j) (js ''xp'')
                            = Some (Num (Finite 0))))"
      by (intro exI [of _ i])
         (simp add: Let_def cellAt_def parseIntOrZero_not_NaN parseIntOrZero_NaN)
  }
  {
    assume "js ''xp'' \<notin> set (map trim first)"
    then show "(parseTaskRows (parseCSV_csv csvText) ! j) (js ''xp'') = None"
      unfolding row by (rule taskOfRow_no_xp)
  }
qed

theorem parseTaskRows_xp_number_witness:
  "parseCSV_csv (js ''name, xp'' @ [0xA] @ js ''t1,-5'' @ [0xA] @ js ''t2'')
     = [js ''name'', js '' xp''] # [[js ''t1'', js ''-5''], [js ''t2'']]
   \<and> js ''xp'' \<in> set (map trim [js ''name'', js '' xp''])
   \<and> 1 < length [[js ''t1'', js ''-5''], [js ''t2'']]
   \<and> (parseTaskRows (parseCSV_csv (js ''name, xp'' @ [0xA] @ js ''t1,-5'' @ [0xA] @ js ''t2'')) ! 0)
         (js ''xp'') = Some (Num (Finite (- 5)))
   \<and> parseInt [] = NaN
   \<and> (parseTaskRows (parseCSV_csv (js ''name, xp'' @ [0xA] @ js ''t1,-5'' @ [0xA] @ js ''t2'')) ! 1)
         (js ''xp'') = Some (Num (Finite 0))
   \<and> parseCSV_csv (js ''name'' @ [0xA] @ js ''t1'') = [js ''name''] # [[js ''t1'']]
   \<and> js ''xp'' \<notin> set (map trim [js ''name''])
   \<and> (parseTaskRows (parseCSV_csv (js ''name'' @ [0xA] @ js ''t1'')) ! 0) (js ''xp'') = None"
proof -
  let ?text = "js ''name, xp'' @ [0xA] @ js ''t1,-5'' @ [0xA] @ js ''t2''"
  let ?first = "[js ''name'', js '' xp'']"
  let ?body = "[[js ''t1'', js ''-5''], [js ''t2'']]"
  have h1: "parseCSV_csv ?text = ?first # ?body"
    by (rule parse_xp_csv)
  have h2: "js ''xp'' \<in> set (map trim ?first)"
    by (simp add: trim_def isWhiteSpace_def js_def)
  have h3: "1 < length ?body" and h4: "0 < length ?body"
    by simp_all
  have name: "trim (?first ! 0) \<noteq> js ''xp''"
    by (simp add: trim_def isWhiteSpace_def js_def)
  have only: "index = 1" if "index < length ?first" "trim (?first ! index) = js ''xp''" for index
  proof (cases index)
    case 0
    with that(2) name show ?thesis by simp
  next
    case (Suc n)
    with that(1) show ?thesis by simp
  qed
  have five: "parseIntOrZero (js ''-5'') = Finite (- 5)"
    by (simp add: parseIntOrZero_def Let_def parseInt_minus5)
  have zero: "parseIntOrZero [] = Finite 0"
    by (simp add: parseIntOrZero_def Let_def parseInt_empty)
  from parseTaskRows_xp_number [OF h1 h4] h2
  obtain i where i: "i < length ?first" "trim (?first ! i) = js ''xp''"
    "(let value = (if i < length (?body ! 0) then ?body ! 0 ! i else [])
      in (parseTaskRows (parseCSV_csv ?text) ! 0) (js ''xp'') = Some (Num (parseIntOrZero value)))"
    unfolding Let_def by blast
  from only [OF i(1,2)] i(3)
  have r0: "(parseTaskRows (parseCSV_csv ?text) ! 0) (js ''xp'') = Some (Num (Finite (- 5)))"
    by (simp add: five)
  from parseTaskRows_xp_number [OF h1 h3] h2
  obtain k where k: "k < length ?first" "trim (?first ! k) = js ''xp''"
    "(let value = (if k < length (?body ! 1) then ?body ! 1 ! k else [])
      in (parseTaskRows (parseCSV_csv ?text) ! 1) (js ''xp'') = Some (Num (parseIntOrZero value)))"
    unfolding Let_def by blast
  from only [OF k(1,2)] k(3)
  have r1: "(parseTaskRows (parseCSV_csv ?text) ! 1) (js ''xp'') = Some (Num (Finite 0))"
    by (simp add: zero)
  have g1: "parseCSV_csv (js ''name'' @ [0xA] @ js ''t1'') = [js ''name''] # [[js ''t1'']]"
    by (rule parse_no_xp_csv)
  have g2: "js ''xp'' \<notin> set (map trim [js ''name''])"
    by (simp add: trim_def isWhiteSpace_def js_def)
  have g3: "0 < length [[js ''t1'']]" by simp
  from parseTaskRows_xp_number [OF g1 g3] g2
  have r2: "(parseTaskRows (parseCSV_csv (js ''name'' @ [0xA] @ js ''t1'')) ! 0) (js ''xp'') = None"
    by blast
  from h1 h2 h3 r0 parseInt_empty r1 g1 g2 r2 show ?thesis by (intro conjI)
qed

section \<open>Short rows\<close>

text \<open>
  C7, as stated: the parse result pads every row shorter than the header row
  with empty strings up to the header's field count. It fails: \<open>parseCSV\<close> of
  csv.ts returns the short row as it is, and \<open>parseCSV\<close> of learning.ts pads
  up to the longest row, here past the header's two fields.
\<close>

theorem parseCSV_short_row_counterexample:
  "parseCSV_csv (js ''a,b'' @ [0xA] @ js ''c'') = [[js ''a'', js ''b''], [js ''c'']]
   \<and> parseCSV_learning (js ''a,b'' @ [0xA] @ js ''c'' @ [0xA] @ js ''d,e,f'')
     = [[js ''a'', js ''b'', []], [js ''c'', [], []], [js ''d'', js ''e'', js ''f'']]"
  using parse_short_csv parse_short_learning by (intro conjI)

text \<open>
  C7, amended. \<open>parseCSV\<close> of learning.ts appends empty strings to each of
  its rows up to the field count of the longest row, so every row of its result
  has that many fields. \<open>parseCSV\<close> of csv.ts can return a row shorter than
  the header row; for every file it parses to a header row and a body,
  \<open>parseTaskRows\<close> builds one task row per body row, and under every trimmed
  header name other than \<open>__proto__\<close> that task row holds the row's cell in
  the last column of that name, or the empty string when the row has no such
  cell (under \<open>xp\<close>, the number \<open>parseInt(cell) || 0\<close>).
\<close>

theorem short_rows_are_filled:
  assumes "parseCSV_csv csvText = first # body"
  shows "length (parseCSV_learning csvText) = length (parseRows_learning csvText)
       \<and> (\<forall>i<length (parseRows_learning csvText).
            length (parseCSV_learning csvText ! i)
              = Max (length ` set (parseRows_learning csvText))
            \<and> parseCSV_learning csvText ! i
              = parseRows_learning csvText ! i
                @ replicate (Max (length ` set (parseRows_learning csvText))
                               - length (parseRows_learning csvText ! i)) [])
       \<and> length (parseTaskRows (parseCSV_csv csvText)) = length body
       \<and> (\<forall>j<length body. \<forall>index<length first.
            trim (first ! index) \<noteq> js ''__proto__''
            \<and> (\<forall>k. index < k \<and> k < length first \<longrightarrow> trim (first ! k) \<noteq> trim (first ! index))
            \<longrightarrow> (parseTaskRows (parseCSV_csv csvText) ! j) (trim (first ! index))
                  = Some (let value = (if index < length (body ! j) then body ! j ! index else [])
                          in if trim (first ! index) = js ''xp''
                             then Num (parseIntOrZero value) else Str value))"
proof -
  let ?R0 = "parseRows_learning csvText"
  let ?M = "Max (length ` set ?R0)"
  let ?m = "foldl (\<lambda>m r. max m (length r)) 0 ?R0"
  let ?pad = "\<lambda>r. if length r < ?m then r @ replicate (?m - length r) [] else r"
  have R: "parseCSV_learning csvText = map ?pad ?R0"
    by (simp add: parseCSV_learning_def Let_def)
  have a: "length (parseCSV_learning csvText) = length ?R0"
    unfolding R by simp
  have b: "\<forall>i<length ?R0.
            length (parseCSV_learning csvText ! i) = ?M
            \<and> parseCSV_learning csvText ! i = ?R0 ! i @ replicate (?M - length (?R0 ! i)) []"
  proof (intro allI impI)
    fix i assume i: "i < length ?R0"
    then have ne: "?R0 \<noteq> []" by auto
    have m: "?m = ?M" using ne by (rule maxCols_Max)
    have le: "length (?R0 ! i) \<le> ?M"
      using i by (intro Max_ge) simp_all
    have p: "parseCSV_learning csvText ! i = ?pad (?R0 ! i)"
      unfolding R using i by simp
    show "length (parseCSV_learning csvText ! i) = ?M
            \<and> parseCSV_learning csvText ! i = ?R0 ! i @ replicate (?M - length (?R0 ! i)) []"
      unfolding p m using le by auto
  qed
  have rows: "parseTaskRows (parseCSV_csv csvText) = map (taskOfRow (map trim first)) body"
    by (simp add: assms parseTaskRows_def Let_def)
  have c: "length (parseTaskRows (parseCSV_csv csvText)) = length body"
    unfolding rows by simp
  have d: "\<forall>j<length body. \<forall>index<length first.
            trim (first ! index) \<noteq> js ''__proto__''
            \<and> (\<forall>k. index < k \<and> k < length first \<longrightarrow> trim (first ! k) \<noteq> trim (first ! index))
            \<longrightarrow> (parseTaskRows (parseCSV_csv csvText) ! j) (trim (first ! index))
                  = Some (let value = (if index < length (body ! j) then body ! j ! index else [])
                          in if trim (first ! index) = js ''xp''
                             then Num (parseIntOrZero value) else Str value)"
  proof (intro allI impI)
    fix j index
    assume j: "j < length body" and index: "index < length first"
      and h: "trim (first ! index) \<noteq> js ''__proto__''
            \<and> (\<forall>k. index < k \<and> k < length first \<longrightarrow> trim (first ! k) \<noteq> trim (first ! index))"
    have i: "index < length (map trim first)" using index by simp
    have p: "map trim first ! index \<noteq> js ''__proto__''" using h index by simp
    have l: "\<forall>k. index < k \<and> k < length (map trim first)
               \<longrightarrow> map trim first ! k \<noteq> map trim first ! index"
      using h index by simp
    from taskOfRow_header [OF i p l, of "body ! j"] index j
    show "(parseTaskRows (parseCSV_csv csvText) ! j) (trim (first ! index))
                  = Some (let value = (if index < length (body ! j) then body ! j ! index else [])
                          in if trim (first ! index) = js ''xp''
                             then Num (parseIntOrZero value) else Str value)"
      by (simp add: rows Let_def cellAt_def)
  qed
  from a b c d show ?thesis by (intro conjI)
qed

theorem short_rows_are_filled_witness:
  "parseCSV_csv (js ''a,b'' @ [0xA] @ js ''c'') = [js ''a'', js ''b''] # [[js ''c'']]
   \<and> parseRows_learning (js ''a,b'' @ [0xA] @ js ''c'') = [[js ''a'', js ''b''], [js ''c'']]
   \<and> length (parseCSV_learning (js ''a,b'' @ [0xA] @ js ''c'')) = 2
   \<and> parseCSV_learning (js ''a,b'' @ [0xA] @ js ''c'') ! 1 = [js ''c'', []]
   \<and> length (parseTaskRows (parseCSV_csv (js ''a,b'' @ [0xA] @ js ''c''))) = 1
   \<and> (parseTaskRows (parseCSV_csv (js ''a,b'' @ [0xA] @ js ''c'')) ! 0) (js ''a'') = Some (Str (js ''c''))
   \<and> (parseTaskRows (parseCSV_csv (js ''a,b'' @ [0xA] @ js ''c'')) ! 0) (js ''b'') = Some (Str [])"
proof -
  let ?text = "js ''a,b'' @ [0xA] @ js ''c''"
  let ?first = "[js ''a'', js ''b'']"
  let ?body = "[[js ''c'']]"
  have h1: "parseCSV_csv ?text = ?first # ?body"
    by (rule parse_short_csv)
  note filled = short_rows_are_filled [OF h1]
  have rows0: "parseRows_learning ?text = [[js ''a'', js ''b''], [js ''c'']]"
    by (simp add: parseRows_learning_def stripBOM_def popEmptyRows_def js_def Let_def
          trim_def isWhiteSpace_def)
  have l2: "length (parseRows_learning ?text) = 2"
    unfolding rows0 by simp
  from filled have "length (parseCSV_learning ?text) = length (parseRows_learning ?text)"
    by (rule conjunct1)
  with l2 have two: "length (parseCSV_learning ?text) = 2"
    by (simp only:)
  have mx: "Max (length ` set (parseRows_learning ?text)) = 2"
    unfolding rows0 by simp
  have one: "1 < length (parseRows_learning ?text)"
    unfolding l2 by simp
  from filled one
  have "parseCSV_learning ?text ! 1
      = parseRows_learning ?text ! 1
        @ replicate (Max (length ` set (parseRows_learning ?text))
                       - length (parseRows_learning ?text ! 1)) []"
    by blast
  then have padded: "parseCSV_learning ?text ! 1 = [js ''c'', []]"
    unfolding mx unfolding rows0 by simp
  from filled have len: "length (parseTaskRows (parseCSV_csv ?text)) = length ?body"
    by blast
  then have len1: "length (parseTaskRows (parseCSV_csv ?text)) = 1"
    by simp
  have t: "trim (js ''a'') = js ''a''" "trim (js ''b'') = js ''b''"
    by (simp_all add: trim_def isWhiteSpace_def js_def)
  have n: "js ''a'' \<noteq> js ''__proto__''" "js ''b'' \<noteq> js ''__proto__''"
    "js ''a'' \<noteq> js ''xp''" "js ''b'' \<noteq> js ''xp''" "js ''b'' \<noteq> js ''a''"
    by (simp_all add: js_def)
  have j: "0 < length ?body" by simp
  have ia: "0 < length ?first" and ib: "1 < length ?first" by simp_all
  have ha: "trim (?first ! 0) \<noteq> js ''__proto__''
            \<and> (\<forall>k. 0 < k \<and> k < length ?first \<longrightarrow> trim (?first ! k) \<noteq> trim (?first ! 0))"
    using t n by (auto simp: less_Suc_eq numeral_2_eq_2)
  have hb: "trim (?first ! 1) \<noteq> js ''__proto__''
            \<and> (\<forall>k. 1 < k \<and> k < length ?first \<longrightarrow> trim (?first ! k) \<noteq> trim (?first ! 1))"
    using t n by auto
  from filled j ia ha
  have "(parseTaskRows (parseCSV_csv ?text) ! 0) (trim (?first ! 0))
      = Some (let value = (if 0 < length (?body ! 0) then ?body ! 0 ! 0 else [])
              in if trim (?first ! 0) = js ''xp'' then Num (parseIntOrZero value) else Str value)"
    by blast
  then have va: "(parseTaskRows (parseCSV_csv ?text) ! 0) (js ''a'') = Some (Str (js ''c''))"
    using t n by (simp add: Let_def)
  from filled j ib hb
  have "(parseTaskRows (parseCSV_csv ?text) ! 0) (trim (?first ! 1))
      = Some (let value = (if 1 < length (?body ! 0) then ?body ! 0 ! 1 else [])
              in if trim (?first ! 1) = js ''xp'' then Num (parseIntOrZero value) else Str value)"
    by blast
  then have vb: "(parseTaskRows (parseCSV_csv ?text) ! 0) (js ''b'') = Some (Str [])"
    using t n by (simp add: Let_def)
  from h1 rows0 two padded len1 va vb show ?thesis by (intro conjI)
qed

end
